theory Spec2Isabelle
  imports Complex_Main "HOL-Library.AList"
begin

section \<open>Constants (utils/Constants.ts)\<close>

text \<open>\<^verbatim>\<open>GESTURE_THRESHOLDS\<close> and \<^verbatim>\<open>COLLAB_CONFIG\<close>. Times are milliseconds as
  returned by \<^verbatim>\<open>Date.now()\<close>, hence integers.\<close>

definition TAP_DURATION :: int where "TAP_DURATION = 200"
definition LONG_PRESS_DURATION :: int where "LONG_PRESS_DURATION = 500"
definition SWIPE_VELOCITY_THRESHOLD :: real where "SWIPE_VELOCITY_THRESHOLD = 1 / 2"
definition PINCH_THRESHOLD :: real where "PINCH_THRESHOLD = 10"
definition ROTATION_THRESHOLD :: real where "ROTATION_THRESHOLD = 5"
definition DOUBLE_TAP_INTERVAL :: int where "DOUBLE_TAP_INTERVAL = 300"

definition PERFECT_TIMING_THRESHOLD :: int where "PERFECT_TIMING_THRESHOLD = 100"
definition GOOD_TIMING_THRESHOLD :: int where "GOOD_TIMING_THRESHOLD = 300"
definition MAX_SYNC_DELAY :: int where "MAX_SYNC_DELAY = 500"
definition PROXIMITY_RADIUS :: real where "PROXIMITY_RADIUS = 5"

section \<open>CollaborationSystem (systems/CollaborationSystem.ts)\<close>

text \<open>JavaScript numbers that hold coordinates are modelled as reals. A \<^verbatim>\<open>Map\<close> that the
  code iterates over is an association list in insertion order (\<^const>\<open>AList.update\<close> replaces in
  place or appends, as \<^verbatim>\<open>Map.set\<close> does); a \<^verbatim>\<open>Set<string>\<close> is a duplicate-free list in
  insertion order; the map \<^verbatim>\<open>playerTouches\<close>, which is only read and written by key, is a
  partial function.

  The calls into external collaborators (haptics, sounds, network broadcast, console output)
  neither return a value nor touch the fields of the class; they are left out. Every
  \<^verbatim>\<open>Date.now()\<close> of a method is the explicit argument \<open>now\<close> of its model; a method
  that reads the clock several times reads the same value each time. The number of required
  players is a natural number, the relay multiplier a real (the values it takes, 1 plus a
  multiple of 0.5, are exact in double precision).\<close>

datatype Vector3 = Vector3 (v3_x: real) (v3_y: real) (v3_z: real)

definition distance3 :: "Vector3 \<Rightarrow> Vector3 \<Rightarrow> real" where
  "distance3 a b =
     (let dx = v3_x a - v3_x b; dy = v3_y a - v3_y b; dz = v3_z a - v3_z b
      in sqrt (dx * dx + dy * dy + dz * dz))"

record Player =
  player_id :: string
  player_name :: string
  player_position :: Vector3
  isTouching :: bool
  touchTimestamp :: "int option"
  deviceId :: "string option"

datatype CollabChallengeType =
  SYNCHRONIZED_TOUCH | ENERGY_RELAY | PORTAL_NETWORK | DUAL_ACTIVATION | TEAM_PUZZLE

record CollabChallenge =
  challenge_id :: string
  challenge_type :: CollabChallengeType
  requiredPlayers :: nat
  participants :: "string list"
  isActive :: bool
  isCompleted :: bool
  startTime :: "int option"
  challenge_position :: Vector3
  proximityRadius :: real

datatype RelayTiming = PERFECT | GOOD | MISS

record RelayEvent =
  fromPlayerId :: string
  toPlayerId :: string
  relay_timestamp :: int
  timing :: RelayTiming

record CollaborationSystem =
  challenges :: "(string \<times> CollabChallenge) list"
  activePlayers :: "(string \<times> Player) list"
  relayChain :: "string list"
  relayMultiplier :: real
  playerTouches :: "string \<rightharpoonup> int"

text \<open>The state built by the field initialisers and the constructor.\<close>

definition initial_system :: CollaborationSystem where
  "initial_system =
     \<lparr>challenges = [], activePlayers = [], relayChain = [], relayMultiplier = 1,
      playerTouches = Map.empty\<rparr>"

text \<open>\<^verbatim>\<open>Set.add\<close> and the loop \<^verbatim>\<open>for (const c of this.challenges.values())\<close> that
  mutates each challenge object.\<close>

definition set_add :: "'a \<Rightarrow> 'a list \<Rightarrow> 'a list" where
  "set_add x xs = (if x \<in> set xs then xs else xs @ [x])"

definition map_values :: "('v \<Rightarrow> 'v) \<Rightarrow> ('k \<times> 'v) list \<Rightarrow> ('k \<times> 'v) list" where
  "map_values f al = map (\<lambda>(k, v). (k, f v)) al"

definition registerPlayer :: "Player \<Rightarrow> CollaborationSystem \<Rightarrow> CollaborationSystem" where
  "registerPlayer player s =
     s\<lparr>activePlayers := AList.update (player_id player) player (activePlayers s)\<rparr>"

definition unregisterPlayer :: "string \<Rightarrow> CollaborationSystem \<Rightarrow> CollaborationSystem" where
  "unregisterPlayer playerId s =
     s\<lparr>activePlayers := AList.delete playerId (activePlayers s),
       playerTouches := (playerTouches s)(playerId := None),
       challenges :=
         map_values (\<lambda>c. c\<lparr>participants := removeAll playerId (participants c)\<rparr>) (challenges s)\<rparr>"

text \<open>\<^verbatim>\<open>generateChallengeId\<close> draws on the clock and on \<^verbatim>\<open>Math.random\<close>; its result is the
  argument \<open>cid\<close>.\<close>

definition createChallenge ::
  "string \<Rightarrow> CollabChallengeType \<Rightarrow> Vector3 \<Rightarrow> nat \<Rightarrow> CollaborationSystem \<Rightarrow> CollaborationSystem"
where
  "createChallenge cid ty pos required s =
     s\<lparr>challenges :=
         AList.update cid
           \<lparr>challenge_id = cid, challenge_type = ty, requiredPlayers = required,
            participants = [], isActive = False, isCompleted = False, startTime = None,
            challenge_position = pos, proximityRadius = PROXIMITY_RADIUS\<rparr>
           (challenges s)\<rparr>"

definition activateChallenge :: "int \<Rightarrow> CollabChallenge \<Rightarrow> CollabChallenge" where
  "activateChallenge now c = c\<lparr>isActive := True, startTime := Some now\<rparr>"

definition nearbyParticipants :: "Player list \<Rightarrow> CollabChallenge \<Rightarrow> string list" where
  "nearbyParticipants players c =
     fold (\<lambda>player acc.
             if distance3 (player_position player) (challenge_position c) \<le> proximityRadius c
             then set_add (player_id player) acc else acc)
          players []"

definition proximityChallenge :: "int \<Rightarrow> Player list \<Rightarrow> CollabChallenge \<Rightarrow> CollabChallenge" where
  "proximityChallenge now players c =
     (if isCompleted c then c
      else
        let c1 = c\<lparr>participants := nearbyParticipants players c\<rparr>
        in if requiredPlayers c1 \<le> length (participants c1) \<and> \<not> isActive c1
           then activateChallenge now c1 else c1)"

definition updatePlayerProximity :: "int \<Rightarrow> CollaborationSystem \<Rightarrow> CollaborationSystem" where
  "updatePlayerProximity now s =
     s\<lparr>challenges :=
         map_values (proximityChallenge now (map snd (activePlayers s))) (challenges s)\<rparr>"

definition completeChallenge :: "CollabChallenge \<Rightarrow> CollabChallenge" where
  "completeChallenge c = c\<lparr>isCompleted := True, isActive := False\<rparr>"

text \<open>\<^verbatim>\<open>checkTouchSynchronization\<close>. Past the two guards the list of timestamps has at least
  two elements, so \<^verbatim>\<open>Math.min\<close> and \<^verbatim>\<open>Math.max\<close> are taken over a non-empty list.\<close>

definition checkTouchSynchronization :: "(string \<rightharpoonup> int) \<Rightarrow> string list \<Rightarrow> bool" where
  "checkTouchSynchronization touches playerIds =
     (if length playerIds < 2 then False
      else
        let timestamps = List.map_filter touches playerIds
        in if length timestamps < length playerIds then False
           else
             let minTime = Min (set timestamps); maxTime = Max (set timestamps);
                 timeDiff = maxTime - minTime
             in timeDiff \<le> MAX_SYNC_DELAY)"

definition touchingPlayers :: "(string \<rightharpoonup> int) \<Rightarrow> CollabChallenge \<Rightarrow> string list" where
  "touchingPlayers touches c = filter (\<lambda>playerId. touches playerId \<noteq> None) (participants c)"

definition checkChallenge :: "(string \<rightharpoonup> int) \<Rightarrow> CollabChallenge \<Rightarrow> CollabChallenge" where
  "checkChallenge touches c =
     (if challenge_type c \<noteq> SYNCHRONIZED_TOUCH \<or> \<not> isActive c \<or> isCompleted c then c
      else if requiredPlayers c \<le> length (touchingPlayers touches c)
      then (if checkTouchSynchronization touches (touchingPlayers touches c)
            then completeChallenge c else c)
      else c)"

definition checkSynchronizedTouch :: "CollaborationSystem \<Rightarrow> CollaborationSystem" where
  "checkSynchronizedTouch s =
     s\<lparr>challenges := map_values (checkChallenge (playerTouches s)) (challenges s)\<rparr>"

definition onPlayerTouch :: "int \<Rightarrow> string \<Rightarrow> CollaborationSystem \<Rightarrow> CollaborationSystem" where
  "onPlayerTouch now playerId s =
     (case map_of (activePlayers s) playerId of
        None \<Rightarrow> s
      | Some player \<Rightarrow>
          checkSynchronizedTouch
            (s\<lparr>activePlayers :=
                 AList.update playerId
                   (player\<lparr>isTouching := True, touchTimestamp := Some now\<rparr>) (activePlayers s),
               playerTouches := (playerTouches s)(playerId \<mapsto> now)\<rparr>))"

definition onPlayerTouchRelease :: "string \<Rightarrow> CollaborationSystem \<Rightarrow> CollaborationSystem" where
  "onPlayerTouchRelease playerId s =
     (case map_of (activePlayers s) playerId of
        None \<Rightarrow> s
      | Some player \<Rightarrow>
          s\<lparr>activePlayers :=
              AList.update playerId
                (player\<lparr>isTouching := False, touchTimestamp := None\<rparr>) (activePlayers s),
            playerTouches := (playerTouches s)(playerId := None)\<rparr>)"

text \<open>The reference time of a hand-off: \<^verbatim>\<open>this.playerTouches.get(this.relayChain[length - 1])\<close>
  behind the tests \<^verbatim>\<open>this.relayChain.length > 0\<close> and \<^verbatim>\<open>if (lastRelayTime)\<close>; the second test
  is false for \<^verbatim>\<open>undefined\<close> and for the number 0.\<close>

definition lastRelayTime :: "CollaborationSystem \<Rightarrow> int option" where
  "lastRelayTime s =
     (if relayChain s = [] then None
      else case playerTouches s (last (relayChain s)) of
             None \<Rightarrow> None
           | Some t \<Rightarrow> if t = 0 then None else Some t)"

text \<open>\<^verbatim>\<open>initiateEnergyRelay\<close> returns the new state and the \<^verbatim>\<open>RelayEvent\<close> it hands to
  \<^verbatim>\<open>playRelayEffect\<close>; \<open>None\<close> is the early return.\<close>

definition initiateEnergyRelay ::
  "int \<Rightarrow> string \<Rightarrow> string \<Rightarrow> CollaborationSystem \<Rightarrow> CollaborationSystem \<times> RelayEvent option"
where
  "initiateEnergyRelay now fromId toId s =
     (if map_of (activePlayers s) fromId = None \<or> map_of (activePlayers s) toId = None
      then (s, None)
      else
        let (tm, mult) =
              (case lastRelayTime s of
                 None \<Rightarrow> (GOOD, relayMultiplier s)
               | Some t \<Rightarrow>
                   let timeDiff = now - t
                   in if timeDiff < PERFECT_TIMING_THRESHOLD
                      then (PERFECT, relayMultiplier s + 1 / 2)
                      else if timeDiff < GOOD_TIMING_THRESHOLD
                      then (GOOD, relayMultiplier s)
                      else (MISS, 1))
        in (s\<lparr>relayMultiplier := mult,
               relayChain := relayChain s @ [toId],
               playerTouches := (playerTouches s)(toId \<mapsto> now)\<rparr>,
            Some \<lparr>fromPlayerId = fromId, toPlayerId = toId, relay_timestamp = now,
                  timing = tm\<rparr>))"

definition resetRelayChain :: "CollaborationSystem \<Rightarrow> CollaborationSystem" where
  "resetRelayChain s = s\<lparr>relayChain := [], relayMultiplier := 1\<rparr>"

section \<open>InputController (core/InputController.ts)\<close>

text \<open>Screen coordinates, velocities, distances and angles are reals (the code computes them
  in double precision). \<open>tp_ref\<close> is not a field of the source: it stands for the identity of
  the \<^verbatim>\<open>TouchPoint\<close> object that \<^verbatim>\<open>onTouchStart\<close> allocates, so that one contact can be told
  from a later contact that reuses the same touch identifier.\<close>

datatype Vector2 = Vector2 (v2_x: real) (v2_y: real)

definition subtract2 :: "Vector2 \<Rightarrow> Vector2 \<Rightarrow> Vector2" where
  "subtract2 a b = Vector2 (v2_x a - v2_x b) (v2_y a - v2_y b)"

definition distance2 :: "Vector2 \<Rightarrow> Vector2 \<Rightarrow> real" where
  "distance2 a b = (let dx = v2_x a - v2_x b; dy = v2_y a - v2_y b in sqrt (dx * dx + dy * dy))"

definition midpoint2 :: "Vector2 \<Rightarrow> Vector2 \<Rightarrow> Vector2" where
  "midpoint2 a b = Vector2 ((v2_x a + v2_x b) / 2) ((v2_y a + v2_y b) / 2)"

definition magnitude2 :: "Vector2 \<Rightarrow> real" where
  "magnitude2 v = sqrt (v2_x v * v2_x v + v2_y v * v2_y v)"

datatype GestureType =
  UNKNOWN | TAP | DOUBLE_TAP | LONG_PRESS | SWIPE | PINCH | ZOOM | ROTATE
  | TWO_FINGER_TAP | THREE_FINGER_PRESS

record TouchPoint =
  tp_id :: int
  tp_position :: Vector2
  tp_startPosition :: Vector2
  tp_deltaPosition :: Vector2
  tp_velocity :: Vector2
  tp_timestamp :: int
  tp_startTime :: int
  tp_duration :: int
  tp_tapCount :: nat
  tp_ref :: nat

record GestureEvent =
  ge_type :: GestureType
  ge_touchPoints :: "TouchPoint list"
  ge_position :: Vector2
  ge_delta :: "Vector2 option"
  ge_scale :: "real option"
  ge_rotation :: "real option"
  ge_velocity :: "Vector2 option"

text \<open>One entry of \<^verbatim>\<open>event.changedTouches\<close>.\<close>

record RawTouch =
  touch_identifier :: int
  clientX :: real
  clientY :: real

text \<open>The fields of the class, and three components of its environment: \<open>timers\<close> holds the
  callbacks that \<^verbatim>\<open>recognizeTap\<close> has passed to \<^verbatim>\<open>setTimeout\<close> and that have not run yet, each
  with the time it is due and the touch point its closure captured; \<open>emitted\<close> is the sequence
  of events passed to \<^verbatim>\<open>emitGesture\<close>; \<open>nextRef\<close> numbers the allocated touch points.
  Subscribers are taken to return normally here; what a throwing subscriber does to the
  dispatch is modelled separately below.\<close>

record InputController =
  touchPoints :: "(int \<times> TouchPoint) list"
  lastTapTime :: int
  lastTapPosition :: "Vector2 option"
  tapCount :: nat
  initialPinchDistance :: real
  currentPinchScale :: real
  initialRotationAngle :: real
  currentRotationAngle :: real
  swipePoints :: "Vector2 list"
  timers :: "(int \<times> TouchPoint) list"
  emitted :: "GestureEvent list"
  nextRef :: nat

definition initial_controller :: InputController where
  "initial_controller =
     \<lparr>touchPoints = [], lastTapTime = 0, lastTapPosition = None, tapCount = 0,
      initialPinchDistance = 0, currentPinchScale = 1, initialRotationAngle = 0,
      currentRotationAngle = 0, swipePoints = [], timers = [], emitted = [], nextRef = 0\<rparr>"

definition emitGesture :: "GestureEvent \<Rightarrow> InputController \<Rightarrow> InputController" where
  "emitGesture event s = s\<lparr>emitted := emitted s @ [event]\<rparr>"

text \<open>\<^verbatim>\<open>Math.atan2\<close> on the reals, and \<^verbatim>\<open>calculateAngle\<close> in degrees.\<close>

definition atan2 :: "real \<Rightarrow> real \<Rightarrow> real" where
  "atan2 y x =
     (if 0 < x then arctan (y / x)
      else if x < 0 then (if 0 \<le> y then arctan (y / x) + pi else arctan (y / x) - pi)
      else if 0 < y then pi / 2
      else if y < 0 then - (pi / 2)
      else 0)"

definition calculateAngle :: "Vector2 \<Rightarrow> Vector2 \<Rightarrow> real" where
  "calculateAngle point1 point2 =
     (let dx = v2_x point2 - v2_x point1; dy = v2_y point2 - v2_y point1
      in atan2 dy dx * (180 / pi))"

definition initializePinchGesture :: "InputController \<Rightarrow> InputController" where
  "initializePinchGesture s =
     (case map snd (touchPoints s) of
        [t0, t1] \<Rightarrow>
          s\<lparr>initialPinchDistance := distance2 (tp_position t0) (tp_position t1),
            currentPinchScale := 1\<rparr>
      | _ \<Rightarrow> s)"

definition initializeRotationGesture :: "InputController \<Rightarrow> InputController" where
  "initializeRotationGesture s =
     (case map snd (touchPoints s) of
        [t0, t1] \<Rightarrow>
          s\<lparr>initialRotationAngle := calculateAngle (tp_position t0) (tp_position t1),
            currentRotationAngle := 0\<rparr>
      | _ \<Rightarrow> s)"

definition startTouch :: "int \<Rightarrow> RawTouch \<Rightarrow> InputController \<Rightarrow> InputController" where
  "startTouch currentTime touch s =
     (let position = Vector2 (clientX touch) (clientY touch);
          touchPoint =
            \<lparr>tp_id = touch_identifier touch, tp_position = position, tp_startPosition = position,
             tp_deltaPosition = Vector2 0 0, tp_velocity = Vector2 0 0,
             tp_timestamp = currentTime, tp_startTime = currentTime, tp_duration = 0,
             tp_tapCount = 0, tp_ref = nextRef s\<rparr>
      in s\<lparr>touchPoints := AList.update (touch_identifier touch) touchPoint (touchPoints s),
           nextRef := Suc (nextRef s)\<rparr>)"

definition onTouchStart :: "int \<Rightarrow> RawTouch list \<Rightarrow> InputController \<Rightarrow> InputController" where
  "onTouchStart currentTime changedTouches s =
     (let s1 = fold (startTouch currentTime) changedTouches s;
          s2 = (if length (touchPoints s1) = 2
                then initializeRotationGesture (initializePinchGesture s1) else s1)
      in s2\<lparr>swipePoints := []\<rparr>)"

definition moveTouch :: "int \<Rightarrow> RawTouch \<Rightarrow> InputController \<Rightarrow> InputController" where
  "moveTouch currentTime touch s =
     (case map_of (touchPoints s) (touch_identifier touch) of
        None \<Rightarrow> s
      | Some touchPoint \<Rightarrow>
          let newPosition = Vector2 (clientX touch) (clientY touch);
              deltaPosition = subtract2 newPosition (tp_position touchPoint);
              deltaTime = real_of_int (currentTime - tp_timestamp touchPoint) / 1000;
              velocity = (if 0 < deltaTime
                          then Vector2 (v2_x deltaPosition / deltaTime)
                                       (v2_y deltaPosition / deltaTime)
                          else Vector2 0 0);
              pushed = swipePoints s @ [newPosition]
          in s\<lparr>touchPoints :=
                 AList.update (touch_identifier touch)
                   (touchPoint\<lparr>tp_position := newPosition, tp_deltaPosition := deltaPosition,
                      tp_velocity := velocity, tp_timestamp := currentTime,
                      tp_duration := currentTime - tp_startTime touchPoint\<rparr>)
                   (touchPoints s),
               swipePoints := (if 50 < length pushed then tl pushed else pushed)\<rparr>)"

definition recognizePinchGesture :: "TouchPoint list \<Rightarrow> InputController \<Rightarrow> InputController" where
  "recognizePinchGesture touchArray s =
     (case touchArray of
        [t0, t1] \<Rightarrow>
          let currentDistance = distance2 (tp_position t0) (tp_position t1)
          in if initialPinchDistance s = 0 then s\<lparr>initialPinchDistance := currentDistance\<rparr>
             else
               let distanceDelta = \<bar>currentDistance - initialPinchDistance s\<bar>
               in if PINCH_THRESHOLD < distanceDelta
                  then
                    let scale = currentDistance / initialPinchDistance s;
                        gestureType = (if 1 < scale then ZOOM else PINCH);
                        midpoint = midpoint2 (tp_position t0) (tp_position t1)
                    in emitGesture
                         \<lparr>ge_type = gestureType, ge_touchPoints = touchArray,
                          ge_position = midpoint, ge_delta = None, ge_scale = Some scale,
                          ge_rotation = None, ge_velocity = None\<rparr>
                         (s\<lparr>currentPinchScale := scale\<rparr>)
                  else s
      | _ \<Rightarrow> s)"

text \<open>The two \<^verbatim>\<open>if\<close> statements that bring \<^verbatim>\<open>angleDelta\<close> back into range.\<close>

definition normalizeAngleDelta :: "real \<Rightarrow> real" where
  "normalizeAngleDelta angleDelta =
     (let a1 = (if 180 < angleDelta then angleDelta - 360 else angleDelta)
      in if a1 < - 180 then a1 + 360 else a1)"

text \<open>The test \<^verbatim>\<open>this.initialRotationAngle === null\<close> is never true of a number, which is
  all that the field ever holds; its branch has no counterpart here.\<close>

definition recognizeRotationGesture :: "TouchPoint list \<Rightarrow> InputController \<Rightarrow> InputController"
where
  "recognizeRotationGesture touchArray s =
     (case touchArray of
        [t0, t1] \<Rightarrow>
          let currentAngle = calculateAngle (tp_position t0) (tp_position t1);
              angleDelta = normalizeAngleDelta (currentAngle - initialRotationAngle s)
          in if ROTATION_THRESHOLD < \<bar>angleDelta\<bar>
             then
               let midpoint = midpoint2 (tp_position t0) (tp_position t1)
               in emitGesture
                    \<lparr>ge_type = ROTATE, ge_touchPoints = touchArray, ge_position = midpoint,
                     ge_delta = None, ge_scale = None, ge_rotation = Some angleDelta,
                     ge_velocity = None\<rparr>
                    (s\<lparr>currentRotationAngle := angleDelta\<rparr>)
             else s
      | _ \<Rightarrow> s)"

definition recognizeContinuousGestures :: "InputController \<Rightarrow> InputController" where
  "recognizeContinuousGestures s =
     (case map snd (touchPoints s) of
        [touch] \<Rightarrow>
          if SWIPE_VELOCITY_THRESHOLD < magnitude2 (tp_velocity touch)
          then emitGesture
                 \<lparr>ge_type = SWIPE, ge_touchPoints = [touch], ge_position = tp_position touch,
                  ge_delta = Some (tp_deltaPosition touch), ge_scale = None,
                  ge_rotation = None, ge_velocity = Some (tp_velocity touch)\<rparr> s
          else s
      | [t0, t1] \<Rightarrow> recognizeRotationGesture [t0, t1] (recognizePinchGesture [t0, t1] s)
      | _ \<Rightarrow> s)"

definition onTouchMove :: "int \<Rightarrow> RawTouch list \<Rightarrow> InputController \<Rightarrow> InputController" where
  "onTouchMove currentTime changedTouches s =
     recognizeContinuousGestures (fold (moveTouch currentTime) changedTouches s)"

definition discreteEvent :: "GestureType \<Rightarrow> TouchPoint \<Rightarrow> GestureEvent" where
  "discreteEvent ty touchPoint =
     \<lparr>ge_type = ty, ge_touchPoints = [touchPoint], ge_position = tp_position touchPoint,
      ge_delta = None, ge_scale = None, ge_rotation = None, ge_velocity = None\<rparr>"

text \<open>The callback that \<^verbatim>\<open>recognizeTap\<close> schedules.\<close>

definition tapTimeout :: "TouchPoint \<Rightarrow> InputController \<Rightarrow> InputController" where
  "tapTimeout touchPoint s =
     (if tapCount s = 1 then emitGesture (discreteEvent TAP touchPoint) s else s)"

definition recognizeTap :: "int \<Rightarrow> TouchPoint \<Rightarrow> InputController \<Rightarrow> InputController" where
  "recognizeTap currentTime touchPoint s =
     (let s1 =
            (if (case lastTapPosition s of
                   None \<Rightarrow> False
                 | Some lastPos \<Rightarrow>
                     distance2 (tp_position touchPoint) lastPos < 30
                     \<and> currentTime - lastTapTime s < DOUBLE_TAP_INTERVAL)
             then
               let s2 = s\<lparr>tapCount := Suc (tapCount s)\<rparr>
               in if tapCount s2 = 2
                  then (emitGesture (discreteEvent DOUBLE_TAP touchPoint) s2)\<lparr>tapCount := 0\<rparr>
                  else s2
             else
               s\<lparr>tapCount := 1,
                 timers := timers s @ [(currentTime + DOUBLE_TAP_INTERVAL, touchPoint)]\<rparr>)
      in s1\<lparr>lastTapTime := currentTime, lastTapPosition := Some (tp_position touchPoint)\<rparr>)"

definition recognizeDiscreteGestures ::
  "int \<Rightarrow> TouchPoint \<Rightarrow> InputController \<Rightarrow> InputController"
where
  "recognizeDiscreteGestures currentTime touchPoint s =
     (let s1 =
            (if tp_duration touchPoint < TAP_DURATION
             then
               let distanceMoved =
                     distance2 (tp_position touchPoint) (tp_startPosition touchPoint)
               in if distanceMoved < 10 then recognizeTap currentTime touchPoint s else s
             else s)
      in if LONG_PRESS_DURATION < tp_duration touchPoint
         then emitGesture (discreteEvent LONG_PRESS touchPoint) s1
         else s1)"

definition endTouch :: "int \<Rightarrow> RawTouch \<Rightarrow> InputController \<Rightarrow> InputController" where
  "endTouch currentTime touch s =
     (case map_of (touchPoints s) (touch_identifier touch) of
        None \<Rightarrow> s
      | Some touchPoint \<Rightarrow>
          let ended = touchPoint\<lparr>tp_duration := currentTime - tp_startTime touchPoint\<rparr>;
              s1 = recognizeDiscreteGestures currentTime ended s
          in s1\<lparr>touchPoints := AList.delete (touch_identifier touch) (touchPoints s1)\<rparr>)"

definition onTouchEnd :: "int \<Rightarrow> RawTouch list \<Rightarrow> InputController \<Rightarrow> InputController" where
  "onTouchEnd currentTime changedTouches s =
     (let s1 = fold (endTouch currentTime) changedTouches s
      in if length (touchPoints s1) < 2
         then s1\<lparr>initialPinchDistance := 0, initialRotationAngle := 0\<rparr>
         else s1)"

definition onTouchCancel :: "RawTouch list \<Rightarrow> InputController \<Rightarrow> InputController" where
  "onTouchCancel changedTouches s =
     fold (\<lambda>touch s'. s'\<lparr>touchPoints := AList.delete (touch_identifier touch) (touchPoints s')\<rparr>)
          changedTouches s"

text \<open>The host's timer queue at clock reading \<open>now\<close>: the pending callbacks that are due run in
  the order in which they were scheduled; a callback is never run before it is due.\<close>

definition runTimers :: "int \<Rightarrow> InputController \<Rightarrow> InputController" where
  "runTimers now s =
     fold (\<lambda>(due, touchPoint). tapTimeout touchPoint)
          (filter (\<lambda>(due, touchPoint). due \<le> now) (timers s))
          (s\<lparr>timers := filter (\<lambda>(due, touchPoint). \<not> due \<le> now) (timers s)\<rparr>)"

text \<open>What the host can do to a controller, and a run of such inputs.\<close>

datatype input =
  TouchStart int "RawTouch list"
  | TouchMove int "RawTouch list"
  | TouchEnd int "RawTouch list"
  | TouchCancel "RawTouch list"
  | Timeout int

fun handle :: "input \<Rightarrow> InputController \<Rightarrow> InputController" where
  "handle (TouchStart now changed) s = onTouchStart now changed s"
| "handle (TouchMove now changed) s = onTouchMove now changed s"
| "handle (TouchEnd now changed) s = onTouchEnd now changed s"
| "handle (TouchCancel changed) s = onTouchCancel changed s"
| "handle (Timeout now) s = runTimers now s"

definition handleAll :: "input list \<Rightarrow> InputController \<Rightarrow> InputController" where
  "handleAll ins s = fold handle ins s"

text \<open>The body of \<^verbatim>\<open>emitGesture\<close> with its subscribers: \<^verbatim>\<open>gestureCallbacks\<close> maps a gesture
  type to the array of callbacks that \<^verbatim>\<open>on\<close> has pushed, an absent key reading as the empty
  array. A callback acts on the subscribers' world \<open>'w\<close> and either returns or throws;
  \<^verbatim>\<open>Array.forEach\<close> has no handler around the call, so a throw leaves the loop.\<close>

datatype 'w outcome = Returned 'w | Thrown 'w

type_synonym 'w GestureCallback = "GestureEvent \<Rightarrow> 'w \<Rightarrow> 'w outcome"

fun forEachCallback :: "'w GestureCallback list \<Rightarrow> GestureEvent \<Rightarrow> 'w \<Rightarrow> 'w outcome" where
  "forEachCallback [] event w = Returned w"
| "forEachCallback (callback # callbacks) event w =
     (case callback event w of
        Thrown w' \<Rightarrow> Thrown w'
      | Returned w' \<Rightarrow> forEachCallback callbacks event w')"

definition dispatchGesture ::
  "(GestureType \<Rightarrow> 'w GestureCallback list) \<Rightarrow> GestureEvent \<Rightarrow> 'w \<Rightarrow> 'w outcome"
where
  "dispatchGesture gestureCallbacks event w =
     forEachCallback (gestureCallbacks (ge_type event)) event w"

definition on_gesture ::
  "GestureType \<Rightarrow> 'w GestureCallback \<Rightarrow> (GestureType \<Rightarrow> 'w GestureCallback list)
   \<Rightarrow> (GestureType \<Rightarrow> 'w GestureCallback list)"
where
  "on_gesture gestureType callback gestureCallbacks =
     gestureCallbacks(gestureType := gestureCallbacks gestureType @ [callback])"

text \<open>The world after a callback, whichever way it ended.\<close>

fun world_of :: "'w outcome \<Rightarrow> 'w" where
  "world_of (Returned w) = w"
| "world_of (Thrown w) = w"

fun returns :: "'w outcome \<Rightarrow> bool" where
  "returns (Returned w) = True"
| "returns (Thrown w) = False"

section \<open>NetworkManager (systems/NetworkManager.ts)\<close>

text \<open>The receiving side. The payload \<^verbatim>\<open>data: any\<close> is a type parameter. A registered callback
  acts on the state \<open>'c\<close> of its consumer and may read the clock, which is the reading of the
  update tick that runs it.\<close>

datatype NetworkEventType =
  PLAYER_JOIN | PLAYER_LEAVE | PLAYER_MOVE | PORTAL_CREATE | PORTAL_ACTIVATE | PORTAL_TRAVERSE
  | ENERGY_COLLECT | TOUCH_EVENT | HAPTIC_EVENT | COLLAB_START | COLLAB_COMPLETE | CHAT_MESSAGE

record 'd NetworkEvent =
  ne_type :: NetworkEventType
  senderId :: string
  ne_timestamp :: int
  ne_data :: 'd

text \<open>The payload that \<^verbatim>\<open>broadcastTouchEvent\<close> sends.\<close>

record TouchEventData =
  data_playerId :: string
  data_isTouching :: bool
  data_timestamp :: int

type_synonym ('d, 'c) NetworkEventCallback = "'d NetworkEvent \<Rightarrow> int \<Rightarrow> 'c \<Rightarrow> 'c"

record ('d, 'c) NetworkManager =
  localPlayerId :: string
  pendingEvents :: "'d NetworkEvent list"
  eventCallbacks :: "NetworkEventType \<Rightarrow> ('d, 'c) NetworkEventCallback list"
  isConnected :: bool
  lastUpdateTime :: int

definition receiveEvent :: "'d NetworkEvent \<Rightarrow> ('d, 'c) NetworkManager \<Rightarrow> ('d, 'c) NetworkManager"
where
  "receiveEvent event nm =
     (if senderId event = localPlayerId nm then nm
      else nm\<lparr>pendingEvents := pendingEvents nm @ [event]\<rparr>)"

definition handleNetworkEvent ::
  "int \<Rightarrow> ('d, 'c) NetworkManager \<Rightarrow> 'd NetworkEvent \<Rightarrow> 'c \<Rightarrow> 'c"
where
  "handleNetworkEvent now nm event c =
     fold (\<lambda>callback c'. callback event now c') (eventCallbacks nm (ne_type event)) c"

definition processPendingEvents ::
  "int \<Rightarrow> ('d, 'c) NetworkManager \<Rightarrow> 'c \<Rightarrow> ('d, 'c) NetworkManager \<times> 'c"
where
  "processPendingEvents now nm c =
     (nm\<lparr>pendingEvents := []\<rparr>, fold (handleNetworkEvent now nm) (pendingEvents nm) c)"

definition update :: "int \<Rightarrow> ('d, 'c) NetworkManager \<Rightarrow> 'c \<Rightarrow> ('d, 'c) NetworkManager \<times> 'c"
where
  "update now nm c =
     (if \<not> isConnected nm then (nm, c)
      else
        let (nm1, c1) = processPendingEvents now nm c
        in (nm1\<lparr>lastUpdateTime := now\<rparr>, c1))"

definition on_event ::
  "NetworkEventType \<Rightarrow> ('d, 'c) NetworkEventCallback \<Rightarrow> ('d, 'c) NetworkManager
   \<Rightarrow> ('d, 'c) NetworkManager"
where
  "on_event eventType callback nm =
     nm\<lparr>eventCallbacks :=
          (eventCallbacks nm)(eventType := eventCallbacks nm eventType @ [callback])\<rparr>"

text \<open>A subscriber of touch events, as a client passes to \<^verbatim>\<open>on\<close>: it hands the touch of the
  player named in the payload to the coordinator's entry point \<^verbatim>\<open>onPlayerTouch(playerId)\<close>.\<close>

definition touchSubscriber :: "(TouchEventData, CollaborationSystem) NetworkEventCallback" where
  "touchSubscriber event now c = onPlayerTouch now (data_playerId (ne_data event)) c"

section \<open>Runs of the coordinator\<close>

datatype op =
  RegisterPlayer Player
  | UnregisterPlayer string
  | CreateChallenge string CollabChallengeType Vector3 nat
  | UpdatePlayerProximity int
  | OnPlayerTouch int string
  | OnPlayerTouchRelease string
  | InitiateEnergyRelay int string string
  | ResetRelayChain

fun step :: "op \<Rightarrow> CollaborationSystem \<Rightarrow> CollaborationSystem" where
  "step (RegisterPlayer player) s = registerPlayer player s"
| "step (UnregisterPlayer playerId) s = unregisterPlayer playerId s"
| "step (CreateChallenge cid ty pos required) s = createChallenge cid ty pos required s"
| "step (UpdatePlayerProximity now) s = updatePlayerProximity now s"
| "step (OnPlayerTouch now playerId) s = onPlayerTouch now playerId s"
| "step (OnPlayerTouchRelease playerId) s = onPlayerTouchRelease playerId s"
| "step (InitiateEnergyRelay now fromId toId) s = fst (initiateEnergyRelay now fromId toId s)"
| "step ResetRelayChain s = resetRelayChain s"

definition run :: "op list \<Rightarrow> CollaborationSystem \<Rightarrow> CollaborationSystem" where
  "run ops s = fold step ops s"

section \<open>The conditions of the specification\<close>

text \<open>The synchronized-touch condition in the words of the specification: among the current
  participants, those with a touch timestamp; their number is at least \<open>requiredPlayers\<close>, and
  the skew of their timestamps is at most \<open>maxSyncDelay\<close>.\<close>

definition touchTimestamps :: "(string \<rightharpoonup> int) \<Rightarrow> CollabChallenge \<Rightarrow> int list" where
  "touchTimestamps touches c = List.map_filter touches (participants c)"

definition skew :: "int list \<Rightarrow> int" where
  "skew ts = Max (set ts) - Min (set ts)"

definition syncTouchCondition :: "(string \<rightharpoonup> int) \<Rightarrow> CollabChallenge \<Rightarrow> bool" where
  "syncTouchCondition touches c \<longleftrightarrow>
     requiredPlayers c \<le> length (touchTimestamps touches c)
     \<and> skew (touchTimestamps touches c) \<le> MAX_SYNC_DELAY"

text \<open>The relay classification in the words of the specification, for a hand-off that comes
  \<open>delta\<close> milliseconds after its reference time.\<close>

definition classifyDelta :: "int \<Rightarrow> RelayTiming" where
  "classifyDelta delta =
     (if delta < PERFECT_TIMING_THRESHOLD then PERFECT
      else if delta < GOOD_TIMING_THRESHOLD then GOOD
      else MISS)"

definition multiplierAfter :: "RelayTiming \<Rightarrow> real \<Rightarrow> real" where
  "multiplierAfter tm m = (case tm of PERFECT \<Rightarrow> m + 1 / 2 | GOOD \<Rightarrow> m | MISS \<Rightarrow> 1)"

text \<open>The classification of a hand-off made at clock reading \<open>now\<close> in state \<open>s\<close>, by the
  reference time that the state holds.\<close>

definition relayTiming :: "CollaborationSystem \<Rightarrow> int \<Rightarrow> RelayTiming" where
  "relayTiming s now =
     (case lastRelayTime s of None \<Rightarrow> GOOD | Some t \<Rightarrow> classifyDelta (now - t))"

text \<open>Every stored player is filed under its own identifier.\<close>

definition playersKeyed :: "CollaborationSystem \<Rightarrow> bool" where
  "playersKeyed s \<longleftrightarrow> list_all (\<lambda>(k, player). player_id player = k) (activePlayers s)"

text \<open>What a reported rotation has to satisfy: an angle between -180 and 180 degrees whose
  magnitude exceeds the threshold.\<close>

definition rotationReported :: "GestureEvent \<Rightarrow> bool" where
  "rotationReported e \<longleftrightarrow>
     (ge_type e = ROTATE \<longrightarrow>
        (case ge_rotation e of
           None \<Rightarrow> False
         | Some r \<Rightarrow> - 180 \<le> r \<and> r \<le> 180 \<and> ROTATION_THRESHOLD < \<bar>r\<bar>))"

definition rotationInvariant :: "InputController \<Rightarrow> bool" where
  "rotationInvariant s \<longleftrightarrow>
     - 180 \<le> initialRotationAngle s \<and> initialRotationAngle s \<le> 180
     \<and> list_all rotationReported (emitted s)"

text \<open>The discrete gestures, the contacts an event is about, and the number of taps or
  double-taps and of long-presses that a log holds for a contact.\<close>

definition discrete :: "GestureType \<Rightarrow> bool" where
  "discrete ty \<longleftrightarrow> ty = TAP \<or> ty = DOUBLE_TAP \<or> ty = LONG_PRESS"

definition eventRefs :: "GestureEvent \<Rightarrow> nat list" where
  "eventRefs e = map tp_ref (ge_touchPoints e)"

definition discreteRefs :: "GestureEvent list \<Rightarrow> nat list" where
  "discreteRefs evs = concat (map eventRefs (filter (\<lambda>e. discrete (ge_type e)) evs))"

definition tapsOf :: "nat \<Rightarrow> GestureEvent list \<Rightarrow> nat" where
  "tapsOf r evs =
     length (filter (\<lambda>e. (ge_type e = TAP \<or> ge_type e = DOUBLE_TAP) \<and> r \<in> set (eventRefs e))
               evs)"

definition longPressesOf :: "nat \<Rightarrow> GestureEvent list \<Rightarrow> nat" where
  "longPressesOf r evs =
     length (filter (\<lambda>e. ge_type e = LONG_PRESS \<and> r \<in> set (eventRefs e)) evs)"

definition durationsRespected :: "GestureEvent \<Rightarrow> bool" where
  "durationsRespected e \<longleftrightarrow>
     list_all
       (\<lambda>touchPoint.
          (ge_type e = TAP \<or> ge_type e = DOUBLE_TAP \<longrightarrow> tp_duration touchPoint < TAP_DURATION)
          \<and> (ge_type e = LONG_PRESS \<longrightarrow> LONG_PRESS_DURATION < tp_duration touchPoint))
       (ge_touchPoints e)"

text \<open>A contact is in one place at most: still touching, waiting in a tap timer, or reported in
  one discrete event.\<close>

definition contactRefs :: "InputController \<Rightarrow> nat list" where
  "contactRefs s =
     discreteRefs (emitted s) @ map (tp_ref \<circ> snd) (timers s)
     @ map (tp_ref \<circ> snd) (touchPoints s)"

definition contactInvariant :: "InputController \<Rightarrow> bool" where
  "contactInvariant s \<longleftrightarrow>
     distinct (contactRefs s)
     \<and> list_all (\<lambda>r. r < nextRef s) (contactRefs s)
     \<and> list_all durationsRespected (emitted s)
     \<and> list_all (\<lambda>(due, touchPoint). tp_duration touchPoint < TAP_DURATION) (timers s)"

text \<open>The test by which \<^verbatim>\<open>recognizeTap\<close> takes a tap at position \<open>pos\<close>, ended at \<open>now\<close>, for
  the follow-up of the last tap; and the touch point of a contact that began at \<open>began\<close>, did
  not move and ended at \<open>ended\<close>, as \<^verbatim>\<open>onTouchEnd\<close> hands it to the recognizers.\<close>

definition followsLastTap :: "int \<Rightarrow> Vector2 \<Rightarrow> InputController \<Rightarrow> bool" where
  "followsLastTap now pos s \<longleftrightarrow>
     (case lastTapPosition s of
        None \<Rightarrow> False
      | Some lastPos \<Rightarrow>
          distance2 pos lastPos < 30 \<and> now - lastTapTime s < DOUBLE_TAP_INTERVAL)"

definition tappedPoint :: "int \<Rightarrow> int \<Rightarrow> RawTouch \<Rightarrow> nat \<Rightarrow> TouchPoint" where
  "tappedPoint began ended touch r =
     \<lparr>tp_id = touch_identifier touch,
      tp_position = Vector2 (clientX touch) (clientY touch),
      tp_startPosition = Vector2 (clientX touch) (clientY touch),
      tp_deltaPosition = Vector2 0 0, tp_velocity = Vector2 0 0, tp_timestamp = began,
      tp_startTime = began, tp_duration = ended - began, tp_tapCount = 0, tp_ref = r\<rparr>"

section \<open>Scenarios\<close>

text \<open>Concrete states on which the theorems below are exercised: players standing at the
  origin, next to a challenge placed there.\<close>

definition player_at_origin :: "string \<Rightarrow> Player" where
  "player_at_origin playerId =
     \<lparr>player_id = playerId, player_name = playerId, player_position = Vector3 0 0 0,
      isTouching = False, touchTimestamp = None, deviceId = None\<rparr>"

definition two_players :: CollaborationSystem where
  "two_players =
     registerPlayer (player_at_origin ''B'') (registerPlayer (player_at_origin ''A'') initial_system)"

definition duo :: CollaborationSystem where
  "duo =
     updatePlayerProximity 0
       (createChallenge ''c1'' SYNCHRONIZED_TOUCH (Vector3 0 0 0) 2 two_players)"

definition solo :: CollaborationSystem where
  "solo =
     updatePlayerProximity 0
       (createChallenge ''c1'' SYNCHRONIZED_TOUCH (Vector3 0 0 0) 1
          (registerPlayer (player_at_origin ''A'') initial_system))"

text \<open>A relay from A to B at 1000, and back from B to A at 1050.\<close>

definition first_relay :: CollaborationSystem where
  "first_relay = fst (initiateEnergyRelay 1000 ''A'' ''B'' two_players)"

definition second_relay :: CollaborationSystem where
  "second_relay = fst (initiateEnergyRelay 1050 ''B'' ''A'' first_relay)"

text \<open>The challenge for two, completed by touches at 0 and 400.\<close>

definition completed_duo :: CollaborationSystem where
  "completed_duo = onPlayerTouch 400 ''B'' (onPlayerTouch 0 ''A'' duo)"

text \<open>The network manager of player A with the touch subscriber registered, a touch event
  sent by player B at 100, and the coordinator \<^const>\<open>duo\<close> after the event has been delivered
  and processed once, in the tick at 100, or once more in the tick at 700.\<close>

definition manager_A :: "(TouchEventData, CollaborationSystem) NetworkManager" where
  "manager_A =
     on_event TOUCH_EVENT touchSubscriber
       \<lparr>localPlayerId = ''A'', pendingEvents = [], eventCallbacks = (\<lambda>eventType. []),
        isConnected = True, lastUpdateTime = 0\<rparr>"

definition touch_from_B :: "TouchEventData NetworkEvent" where
  "touch_from_B =
     \<lparr>ne_type = TOUCH_EVENT, senderId = ''B'', ne_timestamp = 100,
      ne_data = \<lparr>data_playerId = ''B'', data_isTouching = True, data_timestamp = 100\<rparr>\<rparr>"

definition delivered_once :: CollaborationSystem where
  "delivered_once = snd (update 100 (receiveEvent touch_from_B manager_A) duo)"

definition delivered_twice :: CollaborationSystem where
  "delivered_twice =
     snd (update 700
            (receiveEvent touch_from_B
               (fst (update 100 (receiveEvent touch_from_B manager_A) duo)))
            delivered_once)"

text \<open>Subscribers that write their name into a log, which is the world here, and then return
  or throw; a tap event to dispatch.\<close>

definition logging :: "string \<Rightarrow> string list GestureCallback" where
  "logging name event w = Returned (w @ [name])"

definition throwing :: "string \<Rightarrow> string list GestureCallback" where
  "throwing name event w = Thrown (w @ [name])"

definition sample_touch :: TouchPoint where
  "sample_touch =
     \<lparr>tp_id = 0, tp_position = Vector2 10 10, tp_startPosition = Vector2 10 10,
      tp_deltaPosition = Vector2 0 0, tp_velocity = Vector2 0 0, tp_timestamp = 0,
      tp_startTime = 0, tp_duration = 50, tp_tapCount = 0, tp_ref = 0\<rparr>"

text \<open>Two fingers: the first stays at the origin, the second starts straight above it (the
  angle of the pair is 90 degrees) and moves straight below it (-90 degrees).\<close>

definition finger :: "int \<Rightarrow> real \<Rightarrow> real \<Rightarrow> RawTouch" where
  "finger i x y = \<lparr>touch_identifier = i, clientX = x, clientY = y\<rparr>"

definition half_turn :: "input list" where
  "half_turn =
     [TouchStart 0 [finger 0 0 0], TouchStart 0 [finger 1 0 1], TouchMove 10 [finger 1 0 (- 1)]]"

text \<open>The same two fingers, the second moving to the left of the first (180 degrees).\<close>

definition quarter_turn :: "input list" where
  "quarter_turn =
     [TouchStart 0 [finger 0 0 0], TouchStart 0 [finger 1 0 1], TouchMove 10 [finger 1 (- 1) 0]]"

text \<open>One finger tapping at (10, 10): a tap of 50 ms; two such taps 100 ms apart, followed by
  the timer queue at 500; a tap, the timer queue at 400, and a press of 600 ms.\<close>

definition one_tap :: "input list" where
  "one_tap = [TouchStart 0 [finger 0 10 10], TouchEnd 50 [finger 0 10 10]]"

definition two_taps :: "input list" where
  "two_taps =
     [TouchStart 0 [finger 0 10 10], TouchEnd 50 [finger 0 10 10],
      TouchStart 100 [finger 0 10 10], TouchEnd 150 [finger 0 10 10], Timeout 500]"

definition tap_then_press :: "input list" where
  "tap_then_press =
     [TouchStart 0 [finger 0 10 10], TouchEnd 50 [finger 0 10 10], Timeout 400,
      TouchStart 1000 [finger 0 10 10], TouchEnd 1600 [finger 0 10 10]]"

text \<open>Three taps of 50 ms at (10, 10), ending at 50, 150 and 250, and the timer queue at 350,
  when the timer of the first tap is due. A tap at the origin, ending at 50, two taps at
  (100, 100), ending at 100 and 200, and the timer queue at 1000, when every timer is due.\<close>

definition three_taps :: "input list" where
  "three_taps =
     [TouchStart 0 [finger 0 10 10], TouchEnd 50 [finger 0 10 10],
      TouchStart 100 [finger 0 10 10], TouchEnd 150 [finger 0 10 10],
      TouchStart 200 [finger 0 10 10], TouchEnd 250 [finger 0 10 10], Timeout 350]"

definition tap_before_double_tap :: "input list" where
  "tap_before_double_tap =
     [TouchStart 0 [finger 0 0 0], TouchEnd 50 [finger 0 0 0],
      TouchStart 60 [finger 0 100 100], TouchEnd 100 [finger 0 100 100],
      TouchStart 150 [finger 0 100 100], TouchEnd 200 [finger 0 100 100], Timeout 1000]"

section \<open>The scenarios, evaluated\<close>

lemmas collab_defs =
  registerPlayer_def unregisterPlayer_def createChallenge_def updatePlayerProximity_def
  proximityChallenge_def nearbyParticipants_def activateChallenge_def distance3_def set_add_def
  map_values_def onPlayerTouch_def onPlayerTouchRelease_def checkSynchronizedTouch_def
  checkChallenge_def touchingPlayers_def checkTouchSynchronization_def completeChallenge_def
  initiateEnergyRelay_def lastRelayTime_def resetRelayChain_def initial_system_def
  player_at_origin_def PROXIMITY_RADIUS_def MAX_SYNC_DELAY_def PERFECT_TIMING_THRESHOLD_def
  GOOD_TIMING_THRESHOLD_def List.map_filter_def Let_def

lemma two_players_eq:
  "two_players =
     \<lparr>challenges = [],
      activePlayers = [(''A'', player_at_origin ''A''), (''B'', player_at_origin ''B'')],
      relayChain = [], relayMultiplier = 1, playerTouches = Map.empty\<rparr>"
  by (simp add: two_players_def registerPlayer_def initial_system_def player_at_origin_def)

lemma duo_eq:
  "duo =
     \<lparr>challenges =
        [(''c1'',
          \<lparr>challenge_id = ''c1'', challenge_type = SYNCHRONIZED_TOUCH, requiredPlayers = 2,
           participants = [''A'', ''B''], isActive = True, isCompleted = False,
           startTime = Some 0, challenge_position = Vector3 0 0 0, proximityRadius = 5\<rparr>)],
      activePlayers = [(''A'', player_at_origin ''A''), (''B'', player_at_origin ''B'')],
      relayChain = [], relayMultiplier = 1, playerTouches = Map.empty\<rparr>"
  by (simp add: duo_def two_players_eq createChallenge_def updatePlayerProximity_def
      proximityChallenge_def nearbyParticipants_def activateChallenge_def distance3_def
      set_add_def map_values_def player_at_origin_def PROXIMITY_RADIUS_def Let_def)

lemma solo_eq:
  "solo =
     \<lparr>challenges =
        [(''c1'',
          \<lparr>challenge_id = ''c1'', challenge_type = SYNCHRONIZED_TOUCH, requiredPlayers = 1,
           participants = [''A''], isActive = True, isCompleted = False,
           startTime = Some 0, challenge_position = Vector3 0 0 0, proximityRadius = 5\<rparr>)],
      activePlayers = [(''A'', player_at_origin ''A'')],
      relayChain = [], relayMultiplier = 1, playerTouches = Map.empty\<rparr>"
  by (simp add: solo_def createChallenge_def updatePlayerProximity_def registerPlayer_def initial_system_def
      proximityChallenge_def nearbyParticipants_def activateChallenge_def distance3_def
      set_add_def map_values_def player_at_origin_def PROXIMITY_RADIUS_def Let_def)

lemma map_filter_filter:
  "List.map_filter f (filter (\<lambda>x. f x \<noteq> None) xs) = List.map_filter f xs"
  by (induction xs) (auto simp: List.map_filter_def)

lemma length_map_filter:
  "length (List.map_filter f xs) = length (filter (\<lambda>x. f x \<noteq> None) xs)"
  by (simp add: List.map_filter_def)

lemma checkChallenge_completed_iff:
  assumes "challenge_type c = SYNCHRONIZED_TOUCH" and "isActive c" and "\<not> isCompleted c"
  shows "isCompleted (checkChallenge touches c) \<longleftrightarrow>
           syncTouchCondition touches c \<and> 2 \<le> length (touchTimestamps touches c)"
proof -
  have ts: "List.map_filter touches (touchingPlayers touches c) = touchTimestamps touches c"
    unfolding touchingPlayers_def touchTimestamps_def by (rule map_filter_filter)
  have len: "length (touchingPlayers touches c) = length (touchTimestamps touches c)"
    unfolding touchingPlayers_def touchTimestamps_def by (rule length_map_filter [symmetric])
  show ?thesis
    using assms
    unfolding checkChallenge_def checkTouchSynchronization_def Let_def ts len
      syncTouchCondition_def skew_def completeChallenge_def
    by auto
qed

lemma onPlayerTouch_registered:
  assumes "map_of (activePlayers s) p = Some player"
  shows "playerTouches (onPlayerTouch now p s) = (playerTouches s)(p \<mapsto> now)"
    and "challenges (onPlayerTouch now p s) =
           map_values (checkChallenge ((playerTouches s)(p \<mapsto> now))) (challenges s)"
  using assms by (simp_all add: onPlayerTouch_def checkSynchronizedTouch_def)

lemma snd_nth_map_values:
  "i < length al \<Longrightarrow> snd (map_values f al ! i) = f (snd (al ! i))"
  by (simp add: map_values_def case_prod_unfold)

lemma duo_A0:
  "onPlayerTouch 0 ''A'' duo =
     \<lparr>challenges =
        [(''c1'',
          \<lparr>challenge_id = ''c1'', challenge_type = SYNCHRONIZED_TOUCH, requiredPlayers = 2,
           participants = [''A'', ''B''], isActive = True, isCompleted = False,
           startTime = Some 0, challenge_position = Vector3 0 0 0, proximityRadius = 5\<rparr>)],
      activePlayers =
        [(''A'', (player_at_origin ''A'')\<lparr>isTouching := True, touchTimestamp := Some 0\<rparr>),
         (''B'', player_at_origin ''B'')],
      relayChain = [], relayMultiplier = 1, playerTouches = [''A'' \<mapsto> 0]\<rparr>"
  by (simp add: duo_eq collab_defs)

section \<open>Synchronized-touch completion\<close>

text \<open>\<^bold>\<open>C1\<close>, amended. When a registered player touches at clock reading \<open>now\<close>, the reading is
  stored as that player's touch timestamp, and a synchronized-touch challenge that was active
  and not completed is completed by the call exactly when, among its current participants,
  those with a touch timestamp number at least \<open>requiredPlayers\<close> and at least two, and the skew
  of their timestamps is at most \<open>MAX_SYNC_DELAY\<close> (500 ms).\<close>

theorem sync_touch_completion:
  assumes "map_of (activePlayers s) p = Some player"
    and "i < length (challenges s)"
    and "challenge_type (snd (challenges s ! i)) = SYNCHRONIZED_TOUCH"
    and "isActive (snd (challenges s ! i))"
    and "\<not> isCompleted (snd (challenges s ! i))"
  shows "playerTouches (onPlayerTouch now p s) = (playerTouches s)(p \<mapsto> now)
       \<and> (isCompleted (snd (challenges (onPlayerTouch now p s) ! i)) \<longleftrightarrow>
            syncTouchCondition (playerTouches (onPlayerTouch now p s)) (snd (challenges s ! i))
            \<and> 2 \<le> length (touchTimestamps (playerTouches (onPlayerTouch now p s))
                             (snd (challenges s ! i))))"
  using assms
  by (simp add: onPlayerTouch_registered snd_nth_map_values checkChallenge_completed_iff)

text \<open>With two required players, touches at 0 and 400 complete the challenge and touches at 0
  and 600 do not.\<close>

theorem sync_touch_completion_witness:
  "isCompleted (snd (challenges (onPlayerTouch 400 ''B'' (onPlayerTouch 0 ''A'' duo)) ! 0))
   \<and> \<not> isCompleted (snd (challenges (onPlayerTouch 600 ''B'' (onPlayerTouch 0 ''A'' duo)) ! 0))"
  using sync_touch_completion [of "onPlayerTouch 0 ''A'' duo" "''B''" "player_at_origin ''B''" 0 400]
    sync_touch_completion [of "onPlayerTouch 0 ''A'' duo" "''B''" "player_at_origin ''B''" 0 600]
  unfolding duo_A0
  by (simp add: syncTouchCondition_def touchTimestamps_def skew_def
      List.map_filter_def MAX_SYNC_DELAY_def)

text \<open>Without the bound of two the statement fails: a challenge that requires one player meets
  the condition of the specification when its only participant touches, and is not completed,
  since \<^verbatim>\<open>checkTouchSynchronization\<close> answers \<^verbatim>\<open>false\<close> for fewer than two players.\<close>

theorem sync_touch_single_player_counterexample:
  "syncTouchCondition (playerTouches (onPlayerTouch 0 ''A'' solo)) (snd (challenges solo ! 0))
   \<and> \<not> isCompleted (snd (challenges (onPlayerTouch 0 ''A'' solo) ! 0))"
  by (simp add: solo_eq collab_defs syncTouchCondition_def touchTimestamps_def skew_def)

section \<open>Relay hand-offs\<close>

lemma initiateEnergyRelay_registered:
  assumes "map_of (activePlayers s) a \<noteq> None" and "map_of (activePlayers s) b \<noteq> None"
  shows "playerTouches (fst (initiateEnergyRelay now a b s)) = (playerTouches s)(b \<mapsto> now)"
    and "relayChain (fst (initiateEnergyRelay now a b s)) = relayChain s @ [b]"
    and "challenges (fst (initiateEnergyRelay now a b s)) = challenges s"
    and "activePlayers (fst (initiateEnergyRelay now a b s)) = activePlayers s"
  using assms by (auto simp: initiateEnergyRelay_def Let_def split: prod.splits)

lemma initiateEnergyRelay_event:
  assumes "map_of (activePlayers s) a \<noteq> None" and "map_of (activePlayers s) b \<noteq> None"
  shows "snd (initiateEnergyRelay now a b s) =
           Some \<lparr>fromPlayerId = a, toPlayerId = b, relay_timestamp = now,
                 timing = relayTiming s now\<rparr>"
    and "relayMultiplier (fst (initiateEnergyRelay now a b s)) =
           multiplierAfter (relayTiming s now) (relayMultiplier s)"
  using assms
  by (auto simp: initiateEnergyRelay_def classifyDelta_def multiplierAfter_def relayTiming_def
      Let_def
      split: option.splits)

lemma lastRelayTime_after_relay:
  assumes "map_of (activePlayers s) a \<noteq> None" and "map_of (activePlayers s) b \<noteq> None"
    and "now \<noteq> 0"
  shows "lastRelayTime (fst (initiateEnergyRelay now a b s)) = Some now"
  using assms by (simp add: lastRelayTime_def initiateEnergyRelay_registered)

lemma multiplierAfter_ge_1: "1 \<le> m \<Longrightarrow> 1 \<le> multiplierAfter tm m"
  by (cases tm) (simp_all add: multiplierAfter_def)

lemma relayMultiplier_initiateEnergyRelay:
  assumes "1 \<le> relayMultiplier s"
  shows "1 \<le> relayMultiplier (fst (initiateEnergyRelay now a b s))"
proof (cases "map_of (activePlayers s) a \<noteq> None \<and> map_of (activePlayers s) b \<noteq> None")
  case True
  then have "relayMultiplier (fst (initiateEnergyRelay now a b s)) =
      multiplierAfter (relayTiming s now) (relayMultiplier s)"
    by (intro initiateEnergyRelay_event) simp_all
  with assms show ?thesis
    by (simp only: multiplierAfter_ge_1)
next
  case False
  then have "initiateEnergyRelay now a b s = (s, None)"
    by (auto simp: initiateEnergyRelay_def)
  with assms show ?thesis
    by simp
qed

lemma relayMultiplier_step: "1 \<le> relayMultiplier s \<Longrightarrow> 1 \<le> relayMultiplier (step op s)"
proof (cases op)
  case (InitiateEnergyRelay now a b)
  assume "1 \<le> relayMultiplier s"
  then show ?thesis
    using InitiateEnergyRelay by (simp add: relayMultiplier_initiateEnergyRelay)
qed (simp_all add: registerPlayer_def unregisterPlayer_def createChallenge_def
      updatePlayerProximity_def onPlayerTouch_def checkSynchronizedTouch_def
      onPlayerTouchRelease_def resetRelayChain_def split: option.splits)

lemma relayMultiplier_run: "1 \<le> relayMultiplier s \<Longrightarrow> 1 \<le> relayMultiplier (run ops s)"
  unfolding run_def by (induction ops arbitrary: s) (simp_all add: relayMultiplier_step)

lemma first_relay_eq:
  "first_relay =
     \<lparr>challenges = [],
      activePlayers = [(''A'', player_at_origin ''A''), (''B'', player_at_origin ''B'')],
      relayChain = [''B''], relayMultiplier = 1, playerTouches = [''B'' \<mapsto> 1000]\<rparr>"
  by (simp add: first_relay_def two_players_eq initiateEnergyRelay_def lastRelayTime_def)

lemma second_relay_eq:
  "second_relay =
     \<lparr>challenges = [],
      activePlayers = [(''A'', player_at_origin ''A''), (''B'', player_at_origin ''B'')],
      relayChain = [''B'', ''A''], relayMultiplier = 3 / 2,
      playerTouches = [''B'' \<mapsto> 1000, ''A'' \<mapsto> 1050]\<rparr>"
  by (simp add: second_relay_def first_relay_eq initiateEnergyRelay_def lastRelayTime_def
      PERFECT_TIMING_THRESHOLD_def)

lemma duo_relay_100:
  "fst (initiateEnergyRelay 100 ''A'' ''B'' duo) =
     \<lparr>challenges =
        [(''c1'',
          \<lparr>challenge_id = ''c1'', challenge_type = SYNCHRONIZED_TOUCH, requiredPlayers = 2,
           participants = [''A'', ''B''], isActive = True, isCompleted = False,
           startTime = Some 0, challenge_position = Vector3 0 0 0, proximityRadius = 5\<rparr>)],
      activePlayers = [(''A'', player_at_origin ''A''), (''B'', player_at_origin ''B'')],
      relayChain = [''B''], relayMultiplier = 1, playerTouches = [''B'' \<mapsto> 100]\<rparr>"
  by (simp add: duo_eq initiateEnergyRelay_def lastRelayTime_def)

text \<open>\<^bold>\<open>C2\<close>, amended. A hand-off from A to B at clock reading \<open>now\<close>, both registered, is
  classified against the touch-timestamp entry of the last player in the chain, when the chain
  is not empty and that entry is present and not 0: with \<open>\<Delta>\<close> the difference to it, \<open>\<Delta> < 100\<close>
  is Perfect and adds 0.5 to the multiplier, \<open>\<Delta> < 300\<close> is Good and leaves it, anything else is
  Miss and sets it to 1.0; without such an entry, in particular in an empty chain, the
  hand-off is Good. In every case the recipient is appended to the chain, which a Miss does
  not clear. The entry is the time of the previous hand-off when the next hand-off follows
  directly and that time is not 0. The multiplier is at least 1.0 in every state the
  coordinator can reach.\<close>

theorem relay_handoff_classification:
  assumes "map_of (activePlayers s) a \<noteq> None" and "map_of (activePlayers s) b \<noteq> None"
  shows "map_option timing (snd (initiateEnergyRelay now a b s)) = Some (relayTiming s now)
       \<and> relayMultiplier (fst (initiateEnergyRelay now a b s)) =
           multiplierAfter (relayTiming s now) (relayMultiplier s)
       \<and> relayChain (fst (initiateEnergyRelay now a b s)) = relayChain s @ [b]
       \<and> (relayChain s = [] \<longrightarrow> relayTiming s now = GOOD)
       \<and> (now \<noteq> 0 \<longrightarrow>
            (\<forall>now' a' b'.
               map_of (activePlayers s) a' \<noteq> None \<and> map_of (activePlayers s) b' \<noteq> None \<longrightarrow>
               map_option timing
                 (snd (initiateEnergyRelay now' a' b' (fst (initiateEnergyRelay now a b s)))) =
               Some (classifyDelta (now' - now))))
       \<and> (\<forall>ops. 1 \<le> relayMultiplier (run ops initial_system))"
proof -
  have inv: "1 \<le> relayMultiplier (run ops initial_system)" for ops
    by (rule relayMultiplier_run) (simp add: initial_system_def)
  have next_one: "map_option timing
      (snd (initiateEnergyRelay now' a' b' (fst (initiateEnergyRelay now a b s)))) =
      Some (classifyDelta (now' - now))"
    if "now \<noteq> 0" and "map_of (activePlayers s) a' \<noteq> None"
      and "map_of (activePlayers s) b' \<noteq> None" for now' a' b'
  proof -
    let ?s1 = "fst (initiateEnergyRelay now a b s)"
    have "activePlayers ?s1 = activePlayers s"
      using assms by (rule initiateEnergyRelay_registered)
    with that have "snd (initiateEnergyRelay now' a' b' ?s1) =
        Some \<lparr>fromPlayerId = a', toPlayerId = b', relay_timestamp = now',
              timing = relayTiming ?s1 now'\<rparr>"
      by (intro initiateEnergyRelay_event) simp_all
    moreover have "lastRelayTime ?s1 = Some now"
      using assms that(1) by (rule lastRelayTime_after_relay)
    ultimately show ?thesis
      by (simp add: relayTiming_def)
  qed
  show ?thesis
    using assms inv next_one
    by (simp add: initiateEnergyRelay_event initiateEnergyRelay_registered
        relayTiming_def lastRelayTime_def)
qed

text \<open>A first hand-off is Good, a second one 50 ms later is Perfect and raises the multiplier
  to 1.5, a third one 1000 ms later is a Miss and brings it back to 1.\<close>

theorem relay_handoff_classification_witness:
  "map_option timing (snd (initiateEnergyRelay 1000 ''A'' ''B'' two_players)) = Some GOOD
   \<and> map_option timing (snd (initiateEnergyRelay 1050 ''B'' ''A'' first_relay)) = Some PERFECT
   \<and> relayMultiplier (fst (initiateEnergyRelay 1050 ''B'' ''A'' first_relay)) = 3 / 2
   \<and> map_option timing (snd (initiateEnergyRelay 2050 ''A'' ''B'' second_relay)) = Some MISS
   \<and> relayMultiplier (fst (initiateEnergyRelay 2050 ''A'' ''B'' second_relay)) = 1"
proof -
  have "relayTiming two_players 1000 = GOOD"
    by (simp add: two_players_eq relayTiming_def lastRelayTime_def)
  moreover have "relayTiming first_relay 1050 = PERFECT"
    by (simp add: first_relay_eq relayTiming_def lastRelayTime_def classifyDelta_def
        PERFECT_TIMING_THRESHOLD_def)
  moreover have "relayTiming second_relay 2050 = MISS"
    by (simp add: second_relay_eq relayTiming_def lastRelayTime_def classifyDelta_def
        PERFECT_TIMING_THRESHOLD_def GOOD_TIMING_THRESHOLD_def)
  moreover have "map_of (activePlayers two_players) ''A'' \<noteq> None"
    and "map_of (activePlayers two_players) ''B'' \<noteq> None"
    and "map_of (activePlayers first_relay) ''A'' \<noteq> None"
    and "map_of (activePlayers first_relay) ''B'' \<noteq> None"
    and "map_of (activePlayers second_relay) ''A'' \<noteq> None"
    and "map_of (activePlayers second_relay) ''B'' \<noteq> None"
    by (simp_all add: two_players_eq first_relay_eq second_relay_eq)
  moreover have "relayMultiplier first_relay = 1" and "relayMultiplier second_relay = 3 / 2"
    by (simp_all add: first_relay_eq second_relay_eq)
  ultimately show ?thesis
    using relay_handoff_classification [of two_players "''A''" "''B''" 1000]
      relay_handoff_classification [of first_relay "''B''" "''A''" 1050]
      relay_handoff_classification [of second_relay "''A''" "''B''" 2050]
    by (simp add: multiplierAfter_def)
qed

text \<open>The statement of the specification fails twice. A Miss leaves the chain in place and grows it: after
  A to B at 1000 and B to A at 2000 the chain is B, A. And the reference is the touch entry of
  the last recipient, not the time of the last hand-off: once B has touched at 1950, the
  hand-off at 2000 is Perfect, 1000 ms after the previous one.\<close>

theorem relay_miss_keeps_chain_counterexample:
  "map_option timing (snd (initiateEnergyRelay 2000 ''B'' ''A'' first_relay)) = Some MISS
   \<and> relayChain (fst (initiateEnergyRelay 2000 ''B'' ''A'' first_relay)) = [''B'', ''A'']
   \<and> map_option timing
       (snd (initiateEnergyRelay 2000 ''B'' ''A'' (onPlayerTouch 1950 ''B'' first_relay))) =
       Some PERFECT"
  by (simp add: first_relay_eq initiateEnergyRelay_def lastRelayTime_def onPlayerTouch_def
      checkSynchronizedTouch_def map_values_def PERFECT_TIMING_THRESHOLD_def
      GOOD_TIMING_THRESHOLD_def)

text \<open>\<^bold>\<open>C10\<close>. A hand-off between registered players writes its clock reading into the
  recipient's entry of \<open>playerTouches\<close>, the map that the synchronized-touch check filters the
  participants by and that the next hand-off reads its reference time from: the recipient is
  among the touching players of every challenge it participates in, whether or not it ever
  touched.\<close>

theorem relay_marks_recipient_touching:
  assumes "map_of (activePlayers s) a \<noteq> None" and "map_of (activePlayers s) b \<noteq> None"
  shows "playerTouches (fst (initiateEnergyRelay now a b s)) = (playerTouches s)(b \<mapsto> now)
       \<and> (\<forall>c. b \<in> set (participants c) \<longrightarrow>
              b \<in> set (touchingPlayers (playerTouches (fst (initiateEnergyRelay now a b s))) c))
       \<and> (now \<noteq> 0 \<longrightarrow> lastRelayTime (fst (initiateEnergyRelay now a b s)) = Some now)"
  using assms
  by (simp add: initiateEnergyRelay_registered touchingPlayers_def lastRelayTime_after_relay)

text \<open>B never touches, receives a relay at 100, and counts in the check that A's touch at 200
  runs: the challenge for two is completed.\<close>

theorem relay_marks_recipient_touching_witness:
  "playerTouches (fst (initiateEnergyRelay 100 ''A'' ''B'' duo)) ''B'' = Some 100
   \<and> map_option isTouching (map_of (activePlayers (fst (initiateEnergyRelay 100 ''A'' ''B'' duo))) ''B'')
       = Some False
   \<and> ''B'' \<in> set (touchingPlayers (playerTouches (fst (initiateEnergyRelay 100 ''A'' ''B'' duo)))
                   (snd (challenges duo ! 0)))
   \<and> isCompleted
       (snd (challenges (onPlayerTouch 200 ''A'' (fst (initiateEnergyRelay 100 ''A'' ''B'' duo))) ! 0))"
  using relay_marks_recipient_touching [of duo "''A''" "''B''" 100]
  unfolding duo_relay_100
  by (simp add: duo_eq collab_defs)

section \<open>Where the timestamps come from\<close>

lemma playerTouches_step:
  assumes "playerTouches (step op s) p = Some t"
  shows "playerTouches s p = Some t \<or> op = OnPlayerTouch t p
       \<or> (\<exists>a. op = InitiateEnergyRelay t a p)"
proof (cases op)
  case (OnPlayerTouch now q)
  with assms show ?thesis
    by (auto simp: onPlayerTouch_def checkSynchronizedTouch_def
        split: option.splits if_splits)
next
  case (InitiateEnergyRelay now a b)
  with assms show ?thesis
    by (auto simp: initiateEnergyRelay_def Let_def split: if_splits prod.splits)
next
  case (OnPlayerTouchRelease q)
  with assms show ?thesis
    by (auto simp: onPlayerTouchRelease_def split: option.splits if_splits)
next
  case (UnregisterPlayer q)
  with assms show ?thesis
    by (auto simp: unregisterPlayer_def split: if_splits)
qed (use assms in \<open>simp_all add: registerPlayer_def createChallenge_def
      updatePlayerProximity_def resetRelayChain_def\<close>)

lemma playerTouches_run:
  assumes "playerTouches (run ops s) p = Some t"
  shows "playerTouches s p = Some t \<or> OnPlayerTouch t p \<in> set ops
       \<or> (\<exists>a. InitiateEnergyRelay t a p \<in> set ops)"
  using assms
proof (induction ops arbitrary: s)
  case Nil
  then show ?case by (simp add: run_def)
next
  case (Cons op ops)
  from Cons.prems have "playerTouches (run ops (step op s)) p = Some t"
    by (simp add: run_def)
  from Cons.IH [OF this] show ?case
    using playerTouches_step [of op s p t] by auto
qed

lemma duo_A1000:
  "onPlayerTouch 1000 ''A'' duo =
     \<lparr>challenges =
        [(''c1'',
          \<lparr>challenge_id = ''c1'', challenge_type = SYNCHRONIZED_TOUCH, requiredPlayers = 2,
           participants = [''A'', ''B''], isActive = True, isCompleted = False,
           startTime = Some 0, challenge_position = Vector3 0 0 0, proximityRadius = 5\<rparr>)],
      activePlayers =
        [(''A'', (player_at_origin ''A'')\<lparr>isTouching := True, touchTimestamp := Some 1000\<rparr>),
         (''B'', player_at_origin ''B'')],
      relayChain = [], relayMultiplier = 1, playerTouches = [''A'' \<mapsto> 1000]\<rparr>"
  by (simp add: duo_eq collab_defs)

text \<open>\<^bold>\<open>C3\<close>, amended. Every timestamp that a synchronization decision reads is a reading of
  the local clock taken inside \<^verbatim>\<open>onPlayerTouch\<close> or \<^verbatim>\<open>initiateEnergyRelay\<close> when it was called
  for that player: an entry of \<open>playerTouches\<close> in a state reached from the initial one is the
  clock reading of such a call in the run; a touch of a registered player stores the reading of
  its call; a hand-off between registered players stores the reading of its call, puts it into
  the relay event, and is classified by that reading against the stored reference. The entry
  points take player identifiers only, so no timestamp carried by an event reaches them.\<close>

theorem decisions_use_call_clock:
  "(playerTouches (run ops initial_system) p = Some t \<longrightarrow>
      OnPlayerTouch t p \<in> set ops \<or> (\<exists>a. InitiateEnergyRelay t a p \<in> set ops))
   \<and> (map_of (activePlayers s) p \<noteq> None \<longrightarrow>
        playerTouches (onPlayerTouch now p s) p = Some now)
   \<and> (map_of (activePlayers s) a \<noteq> None \<and> map_of (activePlayers s) p \<noteq> None \<longrightarrow>
        playerTouches (fst (initiateEnergyRelay now a p s)) p = Some now
        \<and> map_option relay_timestamp (snd (initiateEnergyRelay now a p s)) = Some now
        \<and> map_option timing (snd (initiateEnergyRelay now a p s)) = Some (relayTiming s now))"
proof -
  have "OnPlayerTouch t p \<in> set ops \<or> (\<exists>a. InitiateEnergyRelay t a p \<in> set ops)"
    if "playerTouches (run ops initial_system) p = Some t"
    using playerTouches_run [OF that] by (simp add: initial_system_def)
  moreover have "playerTouches (onPlayerTouch now p s) p = Some now"
    if "map_of (activePlayers s) p \<noteq> None"
    using that by (auto simp: onPlayerTouch_def checkSynchronizedTouch_def)
  ultimately show ?thesis
    by (auto simp: initiateEnergyRelay_registered initiateEnergyRelay_event)
qed

text \<open>In a run that registers A and B and lets B touch at 400, the entry of B is 400, the
  reading of that call.\<close>

theorem decisions_use_call_clock_witness:
  "playerTouches
     (run [RegisterPlayer (player_at_origin ''A''), RegisterPlayer (player_at_origin ''B''),
           OnPlayerTouch 400 ''B''] initial_system) ''B'' = Some 400
   \<and> OnPlayerTouch 400 ''B'' \<in> set [RegisterPlayer (player_at_origin ''A''),
         RegisterPlayer (player_at_origin ''B''), OnPlayerTouch 400 ''B'']
   \<and> playerTouches (onPlayerTouch 400 ''B'' two_players) ''B'' = Some 400
   \<and> map_option relay_timestamp (snd (initiateEnergyRelay 1050 ''B'' ''A'' first_relay)) = Some 1050
   \<and> playerTouches (fst (initiateEnergyRelay 1050 ''B'' ''A'' first_relay)) ''A'' = Some 1050"
  using decisions_use_call_clock
    [of "[RegisterPlayer (player_at_origin ''A''), RegisterPlayer (player_at_origin ''B''),
          OnPlayerTouch 400 ''B'']" "''B''" 400 two_players 400 "''A''"]
    decisions_use_call_clock [of "[]" "''A''" 0 first_relay 1050 "''B''"]
  by (simp add: two_players_eq first_relay_eq run_def registerPlayer_def initial_system_def
      onPlayerTouch_def checkSynchronizedTouch_def map_values_def player_at_origin_def)

text \<open>The same call with the same argument gives different decisions at different readings of
  the local clock: after A's touch at 1000, \<^verbatim>\<open>onPlayerTouch("B")\<close> completes the challenge when
  it runs at 1200 and not when it runs at 1700; after a hand-off at 1000, the next one is
  Perfect when it is called at 1050 and a Miss at 1500.\<close>

theorem local_clock_decides_counterexample:
  "isCompleted (snd (challenges (onPlayerTouch 1200 ''B'' (onPlayerTouch 1000 ''A'' duo)) ! 0))
   \<and> \<not> isCompleted (snd (challenges (onPlayerTouch 1700 ''B'' (onPlayerTouch 1000 ''A'' duo)) ! 0))
   \<and> map_option timing (snd (initiateEnergyRelay 1050 ''B'' ''A'' first_relay)) = Some PERFECT
   \<and> map_option timing (snd (initiateEnergyRelay 1500 ''B'' ''A'' first_relay)) = Some MISS"
  unfolding duo_A1000
  by (simp add: first_relay_eq collab_defs)


section \<open>Completed challenges and departing players\<close>

lemma nth_update_other:
  "i < length al \<Longrightarrow> fst (al ! i) \<noteq> k \<Longrightarrow> AList.update k v al ! i = al ! i"
  by (induction al arbitrary: i) (auto simp: nth_Cons split: nat.splits)

lemma length_update_ge: "length al \<le> length (AList.update k v al)"
  by (induction al) auto

lemma nth_map_values:
  "i < length al \<Longrightarrow> map_values f al ! i = (fst (al ! i), f (snd (al ! i)))"
  by (simp add: map_values_def case_prod_unfold)

lemma length_map_values [simp]: "length (map_values f al) = length al"
  by (simp add: map_values_def)

lemma proximityChallenge_completed: "isCompleted c \<Longrightarrow> proximityChallenge now players c = c"
  by (simp add: proximityChallenge_def)

lemma checkChallenge_completed: "isCompleted c \<Longrightarrow> checkChallenge touches c = c"
  by (simp add: checkChallenge_def)

lemma challenges_onPlayerTouch:
  "challenges (onPlayerTouch now p s) = challenges s
   \<or> (\<exists>touches. challenges (onPlayerTouch now p s) =
         map_values (checkChallenge touches) (challenges s))"
  by (auto simp: onPlayerTouch_def checkSynchronizedTouch_def split: option.splits)

lemma challenges_onPlayerTouchRelease:
  "challenges (onPlayerTouchRelease p s) = challenges s"
  by (simp add: onPlayerTouchRelease_def split: option.splits)

lemma challenges_initiateEnergyRelay:
  "challenges (fst (initiateEnergyRelay now a b s)) = challenges s"
  by (auto simp: initiateEnergyRelay_def Let_def split: prod.splits)

lemma step_completed:
  assumes i: "i < length (challenges s)" and compl: "isCompleted (snd (challenges s ! i))"
    and fresh: "\<forall>ty pos n. op \<noteq> CreateChallenge (fst (challenges s ! i)) ty pos n"
  shows "i < length (challenges (step op s))
       \<and> challenges (step op s) ! i =
           (fst (challenges s ! i),
            (snd (challenges s ! i))
              \<lparr>participants :=
                 (case op of
                    UnregisterPlayer p \<Rightarrow> removeAll p (participants (snd (challenges s ! i)))
                  | _ \<Rightarrow> participants (snd (challenges s ! i)))\<rparr>)"
proof (cases op)
  case (CreateChallenge cid ty pos n)
  with fresh have "fst (challenges s ! i) \<noteq> cid"
    by auto
  with i CreateChallenge show ?thesis
    using length_update_ge [of "challenges s" cid]
    by (auto simp: createChallenge_def nth_update_other intro: less_le_trans)
next
  case (OnPlayerTouch now p)
  with i compl show ?thesis
    using challenges_onPlayerTouch [of now p s]
    by (auto simp: nth_map_values checkChallenge_completed)
qed (use i compl in \<open>simp_all add: registerPlayer_def unregisterPlayer_def
      updatePlayerProximity_def nth_map_values proximityChallenge_completed
      challenges_onPlayerTouchRelease challenges_initiateEnergyRelay resetRelayChain_def\<close>)

lemma unregisterPlayer_effect:
  "map_of (activePlayers (unregisterPlayer p s)) p = None"
  "playerTouches (unregisterPlayer p s) p = None"
  "length (challenges (unregisterPlayer p s)) = length (challenges s)"
  "relayChain (unregisterPlayer p s) = relayChain s"
  "relayMultiplier (unregisterPlayer p s) = relayMultiplier s"
  "q \<noteq> p \<Longrightarrow> map_of (activePlayers (unregisterPlayer p s)) q = map_of (activePlayers s) q"
  "q \<noteq> p \<Longrightarrow> playerTouches (unregisterPlayer p s) q = playerTouches s q"
  "j < length (challenges s) \<Longrightarrow>
     challenges (unregisterPlayer p s) ! j =
       (fst (challenges s ! j),
        (snd (challenges s ! j))
          \<lparr>participants := removeAll p (participants (snd (challenges s ! j)))\<rparr>)"
  by (simp_all add: unregisterPlayer_def AList.delete_conv' nth_map_values)

lemma unregistered_noop:
  assumes "map_of (activePlayers s) p = None"
  shows "onPlayerTouch now p s = s" and "onPlayerTouchRelease p s = s"
    and "initiateEnergyRelay now p q s = (s, None)"
    and "initiateEnergyRelay now q p s = (s, None)"
  using assms
  by (simp_all add: onPlayerTouch_def onPlayerTouchRelease_def initiateEnergyRelay_def)

lemma set_set_add [simp]: "set (set_add x xs) = insert x (set xs)"
  by (auto simp: set_add_def)

lemma set_nearbyParticipants_aux:
  "set (fold (\<lambda>player acc.
              if P player then set_add (player_id player) acc else acc) players acc)
   \<subseteq> set acc \<union> player_id ` set players"
proof (induction players arbitrary: acc)
  case Nil
  show ?case by simp
next
  case (Cons player players)
  show ?case
    using Cons.IH [of "set_add (player_id player) acc"] Cons.IH [of acc]
    by auto
qed

lemma set_nearbyParticipants:
  "set (nearbyParticipants players c) \<subseteq> player_id ` set players"
  unfolding nearbyParticipants_def
  using set_nearbyParticipants_aux [of _ players "[]"] by simp

lemma participants_proximityChallenge:
  "set (participants (proximityChallenge now players c))
   \<subseteq> (if isCompleted c then set (participants c) else player_id ` set players)"
  using set_nearbyParticipants [of players c]
  by (auto simp: proximityChallenge_def activateChallenge_def Let_def)

lemma keyed_delete_ids:
  assumes "playersKeyed s"
  shows "p \<notin> player_id ` set (map snd (AList.delete p (activePlayers s)))"
  using assms
  by (auto simp: playersKeyed_def list_all_iff AList.delete_eq)

lemma proximity_after_unregister:
  assumes keyed: "playersKeyed s" and j: "j < length (challenges s)"
  shows "p \<notin> set (participants
           (snd (challenges (updatePlayerProximity now (unregisterPlayer p s)) ! j)))"
proof -
  let ?c = "(snd (challenges s ! j))
              \<lparr>participants := removeAll p (participants (snd (challenges s ! j)))\<rparr>"
  let ?players = "map snd (AList.delete p (activePlayers s))"
  have "snd (challenges (updatePlayerProximity now (unregisterPlayer p s)) ! j) =
      proximityChallenge now ?players ?c"
    using j by (simp add: updatePlayerProximity_def unregisterPlayer_def nth_map_values)
  moreover have "p \<notin> set (participants ?c)"
    by simp
  moreover have "p \<notin> player_id ` set ?players"
    using keyed by (rule keyed_delete_ids)
  ultimately show ?thesis
    using participants_proximityChallenge [of now ?players ?c]
    by (auto split: if_splits)
qed

lemma in_set_updateD:
  "x \<in> set (AList.update k v al) \<Longrightarrow> x = (k, v) \<or> x \<in> set al"
  by (induction al) (auto split: if_splits)

lemma keyed_update:
  assumes "list_all (\<lambda>(k, player). player_id player = k) al" and "player_id player = k"
  shows "list_all (\<lambda>(k, player). player_id player = k) (AList.update k player al)"
  using assms by (auto simp: list_all_iff dest!: in_set_updateD)

lemma keyed_delete:
  assumes "list_all (\<lambda>(k, player). player_id player = k) al"
  shows "list_all (\<lambda>(k, player). player_id player = k) (AList.delete k al)"
  using assms by (auto simp: list_all_iff AList.delete_eq)

lemma keyed_lookup:
  assumes "list_all (\<lambda>(k, player). player_id player = k) al" and "map_of al k = Some player"
  shows "player_id player = k"
  using assms by (auto simp: list_all_iff dest: map_of_SomeD)

lemma playersKeyed_step:
  assumes "playersKeyed s"
  shows "playersKeyed (step op s)"
proof -
  from assms have keyed: "list_all (\<lambda>(k, player). player_id player = k) (activePlayers s)"
    by (simp add: playersKeyed_def)
  show ?thesis
  proof (cases op)
    case (RegisterPlayer player)
    from keyed_update [OF keyed refl, of player] show ?thesis
      by (simp add: RegisterPlayer playersKeyed_def registerPlayer_def)
  next
    case (UnregisterPlayer p)
    from keyed_delete [OF keyed, of p] show ?thesis
      by (simp add: UnregisterPlayer playersKeyed_def unregisterPlayer_def)
  next
    case (OnPlayerTouch now p)
    show ?thesis
    proof (cases "map_of (activePlayers s) p")
      case None
      with assms show ?thesis
        by (simp add: OnPlayerTouch onPlayerTouch_def)
    next
      case (Some player)
      from keyed_lookup [OF keyed Some]
      have "player_id (player\<lparr>isTouching := True, touchTimestamp := Some now\<rparr>) = p"
        by simp
      from keyed_update [OF keyed this] show ?thesis
        by (simp add: OnPlayerTouch Some playersKeyed_def onPlayerTouch_def
            checkSynchronizedTouch_def)
    qed
  next
    case (OnPlayerTouchRelease p)
    show ?thesis
    proof (cases "map_of (activePlayers s) p")
      case None
      with assms show ?thesis
        by (simp add: OnPlayerTouchRelease onPlayerTouchRelease_def)
    next
      case (Some player)
      from keyed_lookup [OF keyed Some]
      have "player_id (player\<lparr>isTouching := False, touchTimestamp := None\<rparr>) = p"
        by simp
      from keyed_update [OF keyed this] show ?thesis
        by (simp add: OnPlayerTouchRelease Some playersKeyed_def onPlayerTouchRelease_def)
    qed
  next
    case (InitiateEnergyRelay now a b)
    with keyed show ?thesis
      by (auto simp: playersKeyed_def initiateEnergyRelay_def Let_def split: prod.splits)
  qed (use keyed in \<open>simp_all add: playersKeyed_def createChallenge_def
        updatePlayerProximity_def resetRelayChain_def\<close>)
qed

text \<open>The hypothesis on the stored players holds in every state that the coordinator reaches
  from its initial state.\<close>

lemma playersKeyed_run: "playersKeyed (run ops initial_system)"
proof -
  have "playersKeyed s \<Longrightarrow> playersKeyed (run ops s)" for s
    unfolding run_def by (induction ops arbitrary: s) (simp_all add: playersKeyed_step)
  then show ?thesis
    by (simp add: playersKeyed_def initial_system_def)
qed

lemma completed_duo_eq:
  "completed_duo =
     \<lparr>challenges =
        [(''c1'',
          \<lparr>challenge_id = ''c1'', challenge_type = SYNCHRONIZED_TOUCH, requiredPlayers = 2,
           participants = [''A'', ''B''], isActive = False, isCompleted = True,
           startTime = Some 0, challenge_position = Vector3 0 0 0, proximityRadius = 5\<rparr>)],
      activePlayers =
        [(''A'', (player_at_origin ''A'')\<lparr>isTouching := True, touchTimestamp := Some 0\<rparr>),
         (''B'', (player_at_origin ''B'')\<lparr>isTouching := True, touchTimestamp := Some 400\<rparr>)],
      relayChain = [], relayMultiplier = 1, playerTouches = [''A'' \<mapsto> 0, ''B'' \<mapsto> 400]\<rparr>"
  unfolding completed_duo_def duo_A0 by (simp add: collab_defs)

text \<open>\<^bold>\<open>C6\<close>, amended. A completed challenge keeps its place, its identifier and all of its
  fields, its participants included, under every operation of the coordinator except two:
  \<^verbatim>\<open>unregisterPlayer\<close>, which removes that player from its participants as from those of every
  other challenge, and a \<^verbatim>\<open>createChallenge\<close> that draws the same identifier again. Removing a
  player deletes its entry in \<open>activePlayers\<close> and in \<open>playerTouches\<close>, removes it from the
  participants of every challenge and changes nothing else; afterwards a touch, a release or a
  relay that names the player leaves the state as it is, and a proximity tick does not bring
  the player back into any participant set.\<close>

theorem completed_terminal_and_removal:
  assumes "i < length (challenges s)" and "isCompleted (snd (challenges s ! i))"
    and "\<forall>ty pos n. op \<noteq> CreateChallenge (fst (challenges s ! i)) ty pos n"
    and "playersKeyed s"
  shows "i < length (challenges (step op s))
       \<and> challenges (step op s) ! i =
           (fst (challenges s ! i),
            (snd (challenges s ! i))
              \<lparr>participants :=
                 (case op of
                    UnregisterPlayer q \<Rightarrow> removeAll q (participants (snd (challenges s ! i)))
                  | _ \<Rightarrow> participants (snd (challenges s ! i)))\<rparr>)
       \<and> map_of (activePlayers (unregisterPlayer p s)) p = None
       \<and> playerTouches (unregisterPlayer p s) p = None
       \<and> length (challenges (unregisterPlayer p s)) = length (challenges s)
       \<and> (\<forall>j<length (challenges s).
             challenges (unregisterPlayer p s) ! j =
               (fst (challenges s ! j),
                (snd (challenges s ! j))
                  \<lparr>participants := removeAll p (participants (snd (challenges s ! j)))\<rparr>))
       \<and> relayChain (unregisterPlayer p s) = relayChain s
       \<and> relayMultiplier (unregisterPlayer p s) = relayMultiplier s
       \<and> (\<forall>q. q \<noteq> p \<longrightarrow>
             map_of (activePlayers (unregisterPlayer p s)) q = map_of (activePlayers s) q
             \<and> playerTouches (unregisterPlayer p s) q = playerTouches s q)
       \<and> onPlayerTouch now p (unregisterPlayer p s) = unregisterPlayer p s
       \<and> onPlayerTouchRelease p (unregisterPlayer p s) = unregisterPlayer p s
       \<and> (\<forall>q. initiateEnergyRelay now p q (unregisterPlayer p s) = (unregisterPlayer p s, None)
             \<and> initiateEnergyRelay now q p (unregisterPlayer p s) = (unregisterPlayer p s, None))
       \<and> (\<forall>j<length (challenges s).
             p \<notin> set (participants
                   (snd (challenges (updatePlayerProximity now (unregisterPlayer p s)) ! j))))"
proof -
  note gone = unregisterPlayer_effect(1) [of p s]
  show ?thesis
    using step_completed [OF assms(1-3)] proximity_after_unregister [OF assms(4)]
      unregistered_noop [OF gone]
    by (simp add: unregisterPlayer_effect)
qed


text \<open>The completed challenge of \<^const>\<open>completed_duo\<close> is untouched by a proximity tick; B, once
  removed, is unknown, and its touch is ignored.\<close>

theorem completed_terminal_and_removal_witness:
  "isCompleted (snd (challenges completed_duo ! 0))
   \<and> playersKeyed completed_duo
   \<and> challenges (step (UpdatePlayerProximity 1000) completed_duo) ! 0 =
       challenges completed_duo ! 0
   \<and> map_of (activePlayers (unregisterPlayer ''B'' completed_duo)) ''B'' = None
   \<and> playerTouches (unregisterPlayer ''B'' completed_duo) ''B'' = None
   \<and> onPlayerTouch 2000 ''B'' (unregisterPlayer ''B'' completed_duo) =
       unregisterPlayer ''B'' completed_duo
   \<and> ''B'' \<notin> set (participants
         (snd (challenges
                (updatePlayerProximity 2000 (unregisterPlayer ''B'' completed_duo)) ! 0)))"
proof -
  have hyps: "0 < length (challenges completed_duo)"
    "isCompleted (snd (challenges completed_duo ! 0))"
    "\<forall>ty pos n. UpdatePlayerProximity 1000 \<noteq>
       CreateChallenge (fst (challenges completed_duo ! 0)) ty pos n"
    "playersKeyed completed_duo"
    by (simp_all add: completed_duo_eq playersKeyed_def player_at_origin_def)
  from completed_terminal_and_removal [OF hyps, of "''B''" 2000] hyps show ?thesis
    by (simp add: completed_duo_eq)
qed

text \<open>A completed challenge does accept a participant change: removing B takes B out of the
  participants of the completed challenge.\<close>

theorem completed_loses_participant_counterexample:
  "isCompleted (snd (challenges completed_duo ! 0))
   \<and> participants (snd (challenges completed_duo ! 0)) = [''A'', ''B'']
   \<and> participants (snd (challenges (unregisterPlayer ''B'' completed_duo) ! 0)) = [''A'']"
  by (simp add: completed_duo_eq unregisterPlayer_def map_values_def)



section \<open>Duplicate delivery\<close>

lemma checkChallenge_idem: "checkChallenge touches (checkChallenge touches c) = checkChallenge touches c"
  by (simp add: checkChallenge_def completeChallenge_def)

lemma map_values_idem:
  "(\<And>v. f (f v) = f v) \<Longrightarrow> map_values f (map_values f al) = map_values f al"
  by (induction al) (auto simp: map_values_def)

lemma onPlayerTouch_idem: "onPlayerTouch now p (onPlayerTouch now p s) = onPlayerTouch now p s"
proof (cases "map_of (activePlayers s) p")
  case None
  then show ?thesis
    by (simp add: onPlayerTouch_def)
next
  case (Some player)
  then show ?thesis
    by (simp add: onPlayerTouch_def checkSynchronizedTouch_def AList.update_conv'
        map_values_idem checkChallenge_idem)
qed

lemma handleNetworkEvent_receiveEvent:
  "handleNetworkEvent now (receiveEvent e nm) = handleNetworkEvent now nm"
  by (auto simp: handleNetworkEvent_def receiveEvent_def fun_eq_iff)

lemma processPendingEvents_receiveEvent:
  assumes "senderId e \<noteq> localPlayerId nm"
  shows "snd (processPendingEvents now (receiveEvent e nm) c) =
           handleNetworkEvent now nm e (snd (processPendingEvents now nm c))"
proof -
  have "handleNetworkEvent now (receiveEvent e nm) = handleNetworkEvent now nm"
    by (rule handleNetworkEvent_receiveEvent)
  moreover have "pendingEvents (receiveEvent e nm) = pendingEvents nm @ [e]"
    using assms by (simp add: receiveEvent_def)
  ultimately show ?thesis
    by (simp add: processPendingEvents_def)
qed

lemma duo_B100:
  "onPlayerTouch 100 ''B'' duo =
     \<lparr>challenges =
        [(''c1'',
          \<lparr>challenge_id = ''c1'', challenge_type = SYNCHRONIZED_TOUCH, requiredPlayers = 2,
           participants = [''A'', ''B''], isActive = True, isCompleted = False,
           startTime = Some 0, challenge_position = Vector3 0 0 0, proximityRadius = 5\<rparr>)],
      activePlayers =
        [(''A'', player_at_origin ''A''),
         (''B'', (player_at_origin ''B'')\<lparr>isTouching := True, touchTimestamp := Some 100\<rparr>)],
      relayChain = [], relayMultiplier = 1, playerTouches = [''B'' \<mapsto> 100]\<rparr>"
  by (simp add: duo_eq collab_defs)

lemma delivered_once_eq: "delivered_once = onPlayerTouch 100 ''B'' duo"
  by (simp add: delivered_once_def update_def processPendingEvents_def receiveEvent_def
      handleNetworkEvent_def manager_A_def on_event_def touch_from_B_def touchSubscriber_def)

lemma delivered_twice_eq:
  "delivered_twice = onPlayerTouch 700 ''B'' (onPlayerTouch 100 ''B'' duo)"
  unfolding delivered_twice_def delivered_once_eq
  by (simp add: update_def processPendingEvents_def receiveEvent_def
      handleNetworkEvent_def manager_A_def on_event_def touch_from_B_def touchSubscriber_def)

text \<open>\<^bold>\<open>C8\<close>, amended. \<^verbatim>\<open>receiveEvent\<close> drops nothing but the envelopes of the local sender: an
  envelope of another sender that is delivered twice is queued twice, and processing the queue
  runs the handlers of its type once for each copy. The state of the consumer after the
  duplicate is that after one delivery only where the handler is idempotent; the coordinator's
  \<^verbatim>\<open>onPlayerTouch\<close>, and with it a subscriber that forwards to it, is idempotent when both
  invocations read the same value of the clock.\<close>

theorem duplicate_delivery_runs_handlers_twice:
  assumes "senderId e \<noteq> localPlayerId nm"
  shows "pendingEvents (receiveEvent e (receiveEvent e nm)) = pendingEvents nm @ [e, e]
       \<and> snd (processPendingEvents now (receiveEvent e nm) c) =
           handleNetworkEvent now nm e (snd (processPendingEvents now nm c))
       \<and> snd (processPendingEvents now (receiveEvent e (receiveEvent e nm)) c) =
           handleNetworkEvent now nm e
             (handleNetworkEvent now nm e (snd (processPendingEvents now nm c)))
       \<and> onPlayerTouch t p (onPlayerTouch t p s) = onPlayerTouch t p s
       \<and> touchSubscriber ev t (touchSubscriber ev t s) = touchSubscriber ev t s"
proof -
  have twice: "senderId e \<noteq> localPlayerId (receiveEvent e nm)"
    using assms by (simp add: receiveEvent_def)
  have queued: "pendingEvents (receiveEvent e (receiveEvent e nm)) = pendingEvents nm @ [e, e]"
    using assms by (simp add: receiveEvent_def)
  have once: "snd (processPendingEvents now (receiveEvent e nm) c) =
      handleNetworkEvent now nm e (snd (processPendingEvents now nm c))"
    using assms by (rule processPendingEvents_receiveEvent)
  have "snd (processPendingEvents now (receiveEvent e (receiveEvent e nm)) c) =
      handleNetworkEvent now (receiveEvent e nm) e
        (snd (processPendingEvents now (receiveEvent e nm) c))"
    using twice by (rule processPendingEvents_receiveEvent)
  then have both: "snd (processPendingEvents now (receiveEvent e (receiveEvent e nm)) c) =
      handleNetworkEvent now nm e
        (handleNetworkEvent now nm e (snd (processPendingEvents now nm c)))"
    by (simp only: handleNetworkEvent_receiveEvent once)
  have sub: "touchSubscriber ev t (touchSubscriber ev t s) = touchSubscriber ev t s"
    by (simp add: touchSubscriber_def onPlayerTouch_idem)
  from queued once both onPlayerTouch_idem [of t p s] sub show ?thesis
    by (intro conjI)
qed

text \<open>Two copies of B's touch event, processed in the tick at 100, leave the coordinator as one
  touch of B at 100 does.\<close>

theorem duplicate_delivery_runs_handlers_twice_witness:
  "senderId touch_from_B \<noteq> localPlayerId manager_A
   \<and> pendingEvents (receiveEvent touch_from_B (receiveEvent touch_from_B manager_A)) =
       [touch_from_B, touch_from_B]
   \<and> snd (processPendingEvents 100
            (receiveEvent touch_from_B (receiveEvent touch_from_B manager_A)) duo) =
       onPlayerTouch 100 ''B'' duo"
proof -
  have hyp: "senderId touch_from_B \<noteq> localPlayerId manager_A"
    by (simp add: touch_from_B_def manager_A_def on_event_def)
  have empty: "pendingEvents manager_A = []"
    by (simp add: manager_A_def on_event_def)
  then have idle: "snd (processPendingEvents 100 manager_A duo) = duo"
    by (simp add: processPendingEvents_def)
  have handler: "handleNetworkEvent 100 manager_A touch_from_B c =
      onPlayerTouch 100 ''B'' c" for c
    by (simp add: handleNetworkEvent_def manager_A_def on_event_def touch_from_B_def
        touchSubscriber_def)
  from duplicate_delivery_runs_handlers_twice [OF hyp, of 100 duo 100 "''B''" duo]
  show ?thesis
    using hyp by (simp add: empty idle handler)
qed

text \<open>When the copy is processed in a later tick, the states differ and so does the outcome:
  delivered once, B's touch is stamped 100 and A's touch at 750 does not complete the
  challenge; delivered again and processed at 700, it is stamped 700 and A's touch completes
  the challenge.\<close>

theorem duplicate_touch_changes_state_counterexample:
  "playerTouches delivered_once ''B'' = Some 100
   \<and> playerTouches delivered_twice ''B'' = Some 700
   \<and> \<not> isCompleted (snd (challenges (onPlayerTouch 750 ''A'' delivered_once) ! 0))
   \<and> isCompleted (snd (challenges (onPlayerTouch 750 ''A'' delivered_twice) ! 0))"
  unfolding delivered_twice_eq delivered_once_eq duo_B100
  by (simp add: collab_defs)

section \<open>Dispatch to subscribers\<close>

lemma fold_on_gesture:
  "fold (on_gesture ty) callbacks gestureCallbacks ty = gestureCallbacks ty @ callbacks"
  by (induction callbacks arbitrary: gestureCallbacks) (simp_all add: on_gesture_def)

lemma forEachCallback_append:
  "forEachCallback (xs @ ys) event w =
     (case forEachCallback xs event w of
        Thrown w' \<Rightarrow> Thrown w'
      | Returned w' \<Rightarrow> forEachCallback ys event w')"
  by (induction xs arbitrary: w) (simp_all split: outcome.splits)

lemma forEachCallback_all_return:
  assumes "\<forall>callback\<in>set callbacks. \<forall>w'. returns (callback event w')"
  shows "forEachCallback callbacks event w =
           Returned (fold (\<lambda>callback w'. world_of (callback event w')) callbacks w)"
  using assms
proof (induction callbacks arbitrary: w)
  case Nil
  show ?case by simp
next
  case (Cons callback callbacks)
  from Cons.prems have "returns (callback event w)"
    by simp
  then obtain w1 where w1: "callback event w = Returned w1"
    by (cases "callback event w") simp_all
  from Cons.prems have "\<forall>cb\<in>set callbacks. \<forall>w'. returns (cb event w')"
    by simp
  from Cons.IH [OF this, of w1] w1 show ?case
    by simp
qed

lemma forEachCallback_throw:
  assumes "returns (forEachCallback pre event w)"
    and "\<not> returns (callback event (world_of (forEachCallback pre event w)))"
  shows "forEachCallback (pre @ callback # post) event w =
           Thrown (world_of (callback event (world_of (forEachCallback pre event w))))"
proof -
  from assms(1) obtain w1 where w1: "forEachCallback pre event w = Returned w1"
    by (cases "forEachCallback pre event w") simp_all
  with assms(2) obtain w2 where "callback event w1 = Thrown w2"
    by (cases "callback event w1") simp_all
  with w1 show ?thesis
    by (simp add: forEachCallback_append)
qed

text \<open>\<^bold>\<open>C9\<close>, amended. The callbacks registered with \<^verbatim>\<open>on\<close> for a gesture type are kept, and
  dispatched, in the order of registration. When each of them returns, each has run, one after
  the other in that order. When one of them throws after those before it have returned, the
  dispatch ends there with the exception: the callbacks registered after it are not run.\<close>

theorem dispatch_in_registration_order:
  "dispatchGesture (fold (on_gesture (ge_type event)) callbacks gestureCallbacks) event w =
     forEachCallback (gestureCallbacks (ge_type event) @ callbacks) event w
   \<and> ((\<forall>callback\<in>set callbacks. \<forall>w'. returns (callback event w')) \<longrightarrow>
        forEachCallback callbacks event w =
          Returned (fold (\<lambda>callback w'. world_of (callback event w')) callbacks w))
   \<and> (returns (forEachCallback pre event w)
        \<and> \<not> returns (callback event (world_of (forEachCallback pre event w))) \<longrightarrow>
        forEachCallback (pre @ callback # post) event w =
          Thrown (world_of (callback event (world_of (forEachCallback pre event w)))))"
  using forEachCallback_all_return [of callbacks event w]
    forEachCallback_throw [of pre event w callback post]
  by (simp add: dispatchGesture_def fold_on_gesture)

text \<open>Two logging subscribers run in the order of their registration; a subscriber that throws
  between two others ends the dispatch, and the third never writes to the log.\<close>

theorem dispatch_in_registration_order_witness:
  "dispatchGesture
     (fold (on_gesture TAP) [logging ''first'', logging ''second''] (\<lambda>ty. []))
     (discreteEvent TAP sample_touch) [] = Returned [''first'', ''second'']
   \<and> forEachCallback ([logging ''first''] @ throwing ''second'' # [logging ''third''])
       (discreteEvent TAP sample_touch) [] = Thrown [''first'', ''second'']"
  using dispatch_in_registration_order
    [of "discreteEvent TAP sample_touch" "[logging ''first'', logging ''second'']" "\<lambda>ty. []"
       "[]" "[logging ''first'']" "throwing ''second''" "[logging ''third'']"]
  by (simp add: logging_def throwing_def discreteEvent_def)

text \<open>A throwing callback does prevent the remaining ones from running: with a throwing
  subscriber registered first, the one registered second is not invoked.\<close>

theorem throwing_callback_stops_dispatch_counterexample:
  "dispatchGesture
     (on_gesture TAP (logging ''second'') (on_gesture TAP (throwing ''first'') (\<lambda>ty. [])))
     (discreteEvent TAP sample_touch) [] = Thrown [''first'']"
  by (simp add: dispatchGesture_def on_gesture_def logging_def throwing_def discreteEvent_def)

section \<open>Runs of the input controller\<close>

lemma fold_invariant:
  assumes "\<And>x s. P s \<Longrightarrow> P (f x s)" and "P s"
  shows "P (fold f xs s)"
  using assms(2) by (induction xs arbitrary: s) (simp_all add: assms(1))

lemmas gesture_defs =
  handleAll_def onTouchStart_def startTouch_def initializePinchGesture_def
  initializeRotationGesture_def onTouchMove_def moveTouch_def recognizeContinuousGestures_def
  recognizePinchGesture_def recognizeRotationGesture_def onTouchEnd_def endTouch_def
  recognizeDiscreteGestures_def recognizeTap_def tapTimeout_def runTimers_def
  onTouchCancel_def emitGesture_def discreteEvent_def initial_controller_def finger_def
  distance2_def midpoint2_def subtract2_def magnitude2_def normalizeAngleDelta_def
  TAP_DURATION_def LONG_PRESS_DURATION_def DOUBLE_TAP_INTERVAL_def PINCH_THRESHOLD_def
  ROTATION_THRESHOLD_def SWIPE_VELOCITY_THRESHOLD_def Let_def

section \<open>Rotation\<close>

lemma atan2_bounds: "- pi < atan2 y x \<and> atan2 y x \<le> pi"
proof -
  have lo: "- (pi / 2) < arctan (y / x)" and hi: "arctan (y / x) < pi / 2"
    by (rule arctan_lbound, rule arctan_ubound)
  have neg: "arctan (y / x) \<le> 0" if "x < 0" "0 \<le> y"
  proof -
    from that have "y / x \<le> 0"
      by (simp add: divide_nonneg_neg)
    then show ?thesis
      using arctan_monotone' [of "y / x" 0] by simp
  qed
  have pos: "0 < arctan (y / x)" if "x < 0" "y < 0"
  proof -
    from that have "0 < y / x"
      by (simp add: divide_neg_neg)
    then show ?thesis
      using arctan_monotone [of 0 "y / x"] by simp
  qed
  show ?thesis
    using lo hi neg pos pi_gt_zero by (auto simp: atan2_def)
qed

lemma calculateAngle_bounds:
  "- 180 < calculateAngle point1 point2 \<and> calculateAngle point1 point2 \<le> 180"
proof -
  let ?a = "atan2 (v2_y point2 - v2_y point1) (v2_x point2 - v2_x point1)"
  have "- pi < ?a" and "?a \<le> pi"
    using atan2_bounds by simp_all
  moreover have "0 < 180 / pi"
    by simp
  ultimately have "- pi * (180 / pi) < ?a * (180 / pi)" and "?a * (180 / pi) \<le> pi * (180 / pi)"
    by (simp_all only: mult_strict_right_mono mult_right_mono less_imp_le)
  then show ?thesis
    by (simp add: calculateAngle_def Let_def)
qed

lemma normalizeAngleDelta_range:
  assumes "\<bar>angleDelta\<bar> \<le> 360"
  shows "- 180 \<le> normalizeAngleDelta angleDelta \<and> normalizeAngleDelta angleDelta \<le> 180
       \<and> (normalizeAngleDelta angleDelta = angleDelta
           \<or> normalizeAngleDelta angleDelta = angleDelta - 360
           \<or> normalizeAngleDelta angleDelta = angleDelta + 360)"
  using assms by (auto simp: normalizeAngleDelta_def Let_def)

lemma rotationReported_other: "ge_type e \<noteq> ROTATE \<Longrightarrow> rotationReported e"
  by (simp add: rotationReported_def)

lemma rotationInvariant_emit:
  "rotationInvariant s \<Longrightarrow> rotationReported e \<Longrightarrow> rotationInvariant (emitGesture e s)"
  by (simp add: rotationInvariant_def emitGesture_def)

lemma rotationInvariant_startTouch:
  "rotationInvariant s \<Longrightarrow> rotationInvariant (startTouch now touch s)"
  by (simp add: rotationInvariant_def startTouch_def Let_def)

lemma rotationInvariant_initializePinchGesture:
  "rotationInvariant s \<Longrightarrow> rotationInvariant (initializePinchGesture s)"
  by (simp add: rotationInvariant_def initializePinchGesture_def split: list.splits)

lemma rotationInvariant_initializeRotationGesture:
  "rotationInvariant s \<Longrightarrow> rotationInvariant (initializeRotationGesture s)"
  using calculateAngle_bounds
  by (auto simp: rotationInvariant_def initializeRotationGesture_def less_imp_le
      split: list.splits)

lemma rotationInvariant_swipePoints:
  "rotationInvariant s \<Longrightarrow> rotationInvariant (s\<lparr>swipePoints := ps\<rparr>)"
  by (simp add: rotationInvariant_def)

lemma rotationInvariant_onTouchStart:
  assumes "rotationInvariant s"
  shows "rotationInvariant (onTouchStart now changed s)"
proof -
  define s1 where "s1 = fold (startTouch now) changed s"
  define s2 where "s2 = (if length (touchPoints s1) = 2
    then initializeRotationGesture (initializePinchGesture s1) else s1)"
  have "rotationInvariant s1"
    unfolding s1_def using assms
    by (rule fold_invariant [where P = rotationInvariant, rotated]) (rule rotationInvariant_startTouch)
  then have "rotationInvariant s2"
    unfolding s2_def
    by (simp add: rotationInvariant_initializePinchGesture
        rotationInvariant_initializeRotationGesture)
  then have "rotationInvariant (s2\<lparr>swipePoints := []\<rparr>)"
    by (rule rotationInvariant_swipePoints)
  then show ?thesis
    by (simp only: onTouchStart_def Let_def s1_def s2_def)
qed

lemma rotationInvariant_moveTouch:
  "rotationInvariant s \<Longrightarrow> rotationInvariant (moveTouch now touch s)"
  by (simp add: rotationInvariant_def moveTouch_def Let_def split: option.splits)

lemma rotationInvariant_recognizePinchGesture:
  "rotationInvariant s \<Longrightarrow> rotationInvariant (recognizePinchGesture touchArray s)"
  by (auto simp: rotationInvariant_def recognizePinchGesture_def emitGesture_def Let_def
      rotationReported_def split: list.splits)

lemma rotationInvariant_recognizeRotationGesture:
  assumes "rotationInvariant s"
  shows "rotationInvariant (recognizeRotationGesture touchArray s)"
proof (cases touchArray)
  case Nil
  with assms show ?thesis
    by (simp add: recognizeRotationGesture_def)
next
  case (Cons t0 rest)
  show ?thesis
  proof (cases rest)
    case Nil
    with Cons assms show ?thesis
      by (simp add: recognizeRotationGesture_def)
  next
    case (Cons t1 rest')
    note rest = this
    show ?thesis
    proof (cases rest')
      case Nil
      let ?cur = "calculateAngle (tp_position t0) (tp_position t1)"
      let ?d = "normalizeAngleDelta (?cur - initialRotationAngle s)"
      from assms calculateAngle_bounds [of "tp_position t0" "tp_position t1"]
      have "\<bar>?cur - initialRotationAngle s\<bar> \<le> 360"
        by (simp add: rotationInvariant_def abs_le_iff)
      from normalizeAngleDelta_range [OF this] have "- 180 \<le> ?d" and "?d \<le> 180"
        by simp_all
      with assms show ?thesis
        by (simp add: \<open>touchArray = t0 # rest\<close> rest Nil recognizeRotationGesture_def Let_def
            rotationInvariant_def emitGesture_def rotationReported_def)
    next
      case (Cons t2 rest'')
      with \<open>touchArray = t0 # rest\<close> rest assms show ?thesis
        by (simp add: recognizeRotationGesture_def)
    qed
  qed
qed

lemma rotationInvariant_recognizeContinuousGestures:
  "rotationInvariant s \<Longrightarrow> rotationInvariant (recognizeContinuousGestures s)"
  by (auto simp: recognizeContinuousGestures_def rotationInvariant_emit rotationReported_other
      rotationInvariant_recognizeRotationGesture rotationInvariant_recognizePinchGesture
      split: list.splits)

lemma rotationInvariant_onTouchMove:
  assumes "rotationInvariant s"
  shows "rotationInvariant (onTouchMove now changed s)"
proof -
  have "rotationInvariant (fold (moveTouch now) changed s)"
    using assms
    by (rule fold_invariant [where P = rotationInvariant, rotated]) (rule rotationInvariant_moveTouch)
  then show ?thesis
    unfolding onTouchMove_def by (rule rotationInvariant_recognizeContinuousGestures)
qed

lemma rotationInvariant_recognizeTap:
  "rotationInvariant s \<Longrightarrow> rotationInvariant (recognizeTap now touchPoint s)"
  by (auto simp: recognizeTap_def rotationInvariant_def emitGesture_def discreteEvent_def
      rotationReported_def Let_def)

lemma rotationInvariant_recognizeDiscreteGestures:
  "rotationInvariant s \<Longrightarrow> rotationInvariant (recognizeDiscreteGestures now touchPoint s)"
  by (auto simp: recognizeDiscreteGestures_def Let_def rotationInvariant_recognizeTap
      rotationInvariant_emit rotationReported_def discreteEvent_def)

lemma rotationInvariant_touchPoints:
  "rotationInvariant s \<Longrightarrow> rotationInvariant (s\<lparr>touchPoints := tps\<rparr>)"
  by (simp add: rotationInvariant_def)

lemma rotationInvariant_endTouch:
  assumes "rotationInvariant s"
  shows "rotationInvariant (endTouch now touch s)"
proof (cases "map_of (touchPoints s) (touch_identifier touch)")
  case None
  with assms show ?thesis
    by (simp add: endTouch_def)
next
  case (Some touchPoint)
  define s1 where "s1 = recognizeDiscreteGestures now
    (touchPoint\<lparr>tp_duration := now - tp_startTime touchPoint\<rparr>) s"
  have "rotationInvariant s1"
    unfolding s1_def using assms by (rule rotationInvariant_recognizeDiscreteGestures)
  then have "rotationInvariant
      (s1\<lparr>touchPoints := AList.delete (touch_identifier touch) (touchPoints s1)\<rparr>)"
    by (rule rotationInvariant_touchPoints)
  then show ?thesis
    by (simp only: endTouch_def Let_def Some s1_def option.case)
qed

lemma rotationInvariant_reset:
  "rotationInvariant s \<Longrightarrow>
   rotationInvariant (s\<lparr>initialPinchDistance := 0, initialRotationAngle := 0\<rparr>)"
  by (simp add: rotationInvariant_def)

lemma rotationInvariant_onTouchEnd:
  assumes "rotationInvariant s"
  shows "rotationInvariant (onTouchEnd now changed s)"
proof -
  define s1 where "s1 = fold (endTouch now) changed s"
  have "rotationInvariant s1"
    unfolding s1_def using assms
    by (rule fold_invariant [where P = rotationInvariant, rotated]) (rule rotationInvariant_endTouch)
  then have "rotationInvariant
      (if length (touchPoints s1) < 2
       then s1\<lparr>initialPinchDistance := 0, initialRotationAngle := 0\<rparr> else s1)"
    by (simp add: rotationInvariant_reset)
  then show ?thesis
    by (simp only: onTouchEnd_def Let_def s1_def)
qed

lemma rotationInvariant_onTouchCancel:
  assumes "rotationInvariant s"
  shows "rotationInvariant (onTouchCancel changed s)"
  unfolding onTouchCancel_def
  using assms
  by (rule fold_invariant [where P = rotationInvariant, rotated]) (rule rotationInvariant_touchPoints)

lemma rotationInvariant_tapTimeout:
  "rotationInvariant s \<Longrightarrow> rotationInvariant (tapTimeout touchPoint s)"
  by (simp add: tapTimeout_def rotationInvariant_emit rotationReported_def discreteEvent_def)

lemma rotationInvariant_runTimers:
  assumes "rotationInvariant s"
  shows "rotationInvariant (runTimers now s)"
proof -
  have "rotationInvariant (s\<lparr>timers := ts\<rparr>)" for ts
    using assms by (simp add: rotationInvariant_def)
  then show ?thesis
    unfolding runTimers_def
    by (rule fold_invariant [where P = rotationInvariant, rotated])
       (simp add: case_prod_unfold rotationInvariant_tapTimeout)
qed

lemma rotationInvariant_handle:
  "rotationInvariant s \<Longrightarrow> rotationInvariant (handle i s)"
  by (cases i)
     (simp_all add: rotationInvariant_onTouchStart rotationInvariant_onTouchMove
        rotationInvariant_onTouchEnd rotationInvariant_onTouchCancel
        rotationInvariant_runTimers)

lemma rotationInvariant_handleAll:
  assumes "rotationInvariant s"
  shows "rotationInvariant (handleAll ins s)"
  unfolding handleAll_def
  using assms
  by (rule fold_invariant [where P = rotationInvariant, rotated]) (rule rotationInvariant_handle)

lemma calculateAngle_up: "calculateAngle (Vector2 0 0) (Vector2 0 1) = 90"
  by (simp add: calculateAngle_def atan2_def)

lemma calculateAngle_down: "calculateAngle (Vector2 0 0) (Vector2 0 (- 1)) = - 90"
  by (simp add: calculateAngle_def atan2_def)

lemma calculateAngle_left: "calculateAngle (Vector2 0 0) (Vector2 (- 1) 0) = 180"
  by (simp add: calculateAngle_def atan2_def)

lemma quarter_turn_rotations:
  "map ge_rotation
     (filter (\<lambda>e. ge_type e = ROTATE) (emitted (handleAll quarter_turn initial_controller))) =
   [Some 90]"
  by (simp add: quarter_turn_def gesture_defs calculateAngle_up calculateAngle_left)

text \<open>\<^bold>\<open>C7\<close>, amended. Every Rotate event that the controller emits, in any run from its initial
  state, reports an angle between -180 and 180 degrees, both ends included, whose magnitude
  exceeds the rotation threshold of 5 degrees. The angle is the difference of the current and
  the baseline angle, brought back into range by subtracting 360 when it is above 180 and
  adding 360 when it is below -180: a difference of magnitude at most 360 ends in the closed
  range, unchanged or shifted by 360 once, and the step from 170 to -170 degrees is reported
  as 20 degrees.\<close>

theorem rotate_delta_range:
  "list_all rotationReported (emitted (handleAll ins initial_controller))
   \<and> (\<bar>angleDelta\<bar> \<le> 360 \<longrightarrow>
        - 180 \<le> normalizeAngleDelta angleDelta \<and> normalizeAngleDelta angleDelta \<le> 180
        \<and> (normalizeAngleDelta angleDelta = angleDelta
            \<or> normalizeAngleDelta angleDelta = angleDelta - 360
            \<or> normalizeAngleDelta angleDelta = angleDelta + 360))
   \<and> normalizeAngleDelta (- 170 - 170) = 20
   \<and> emitted (recognizeRotationGesture [t0, t1] s) =
       (if ROTATION_THRESHOLD <
             \<bar>normalizeAngleDelta
                (calculateAngle (tp_position t0) (tp_position t1) - initialRotationAngle s)\<bar>
        then emitted s @
               [\<lparr>ge_type = ROTATE, ge_touchPoints = [t0, t1],
                 ge_position = midpoint2 (tp_position t0) (tp_position t1), ge_delta = None,
                 ge_scale = None,
                 ge_rotation =
                   Some (normalizeAngleDelta
                           (calculateAngle (tp_position t0) (tp_position t1)
                            - initialRotationAngle s)),
                 ge_velocity = None\<rparr>]
        else emitted s)"
proof -
  have "rotationInvariant initial_controller"
    by (simp add: rotationInvariant_def initial_controller_def)
  then have "rotationInvariant (handleAll ins initial_controller)"
    by (rule rotationInvariant_handleAll)
  then show ?thesis
    using normalizeAngleDelta_range [of angleDelta]
    by (simp add: rotationInvariant_def recognizeRotationGesture_def emitGesture_def Let_def
        normalizeAngleDelta_def)
qed


text \<open>The second finger moves from above the first to its left: the rotation reported is 90
  degrees. A difference of -340 degrees is normalized to 20.\<close>

theorem rotate_delta_range_witness:
  "map ge_rotation
     (filter (\<lambda>e. ge_type e = ROTATE) (emitted (handleAll quarter_turn initial_controller))) =
     [Some 90]
   \<and> list_all rotationReported (emitted (handleAll quarter_turn initial_controller))
   \<and> \<bar>- 340 :: real\<bar> \<le> 360 \<and> normalizeAngleDelta (- 340) = 20"
  using rotate_delta_range [of quarter_turn "- 340"] quarter_turn_rotations
  by simp

text \<open>The lower end of the range is reached: when the second finger moves from straight above
  the first to straight below it, the difference is exactly -180 degrees, neither test of
  the normalization applies, and the event reports -180.\<close>

theorem rotate_reports_minus_180_counterexample:
  "map ge_rotation
     (filter (\<lambda>e. ge_type e = ROTATE) (emitted (handleAll half_turn initial_controller))) =
   [Some (- 180)]"
  by (simp add: half_turn_def gesture_defs calculateAngle_up calculateAngle_down)

section \<open>Discrete gestures of a contact\<close>

subsection \<open>Lists of contacts\<close>

lemma discreteRefs_append [simp]: "discreteRefs (xs @ ys) = discreteRefs xs @ discreteRefs ys"
  by (simp add: discreteRefs_def)

lemma discreteRefs_Nil [simp]: "discreteRefs [] = []"
  by (simp add: discreteRefs_def)

lemma discreteRefs_single:
  "discreteRefs [e] = (if discrete (ge_type e) then eventRefs e else [])"
  by (simp add: discreteRefs_def)

lemma discreteRefs_discreteEvent [simp]:
  "ty = TAP \<or> ty = DOUBLE_TAP \<or> ty = LONG_PRESS \<Longrightarrow>
   discreteRefs [discreteEvent ty touchPoint] = [tp_ref touchPoint]"
  by (auto simp: discreteRefs_def discreteEvent_def discrete_def eventRefs_def)

lemma discreteRefs_taps:
  "discreteRefs (map (\<lambda>(due, touchPoint). discreteEvent TAP touchPoint) ts) =
     map (tp_ref \<circ> snd) ts"
  by (induction ts)
     (auto simp: discreteRefs_def discreteEvent_def discrete_def eventRefs_def)

lemma refs_update_subset:
  "set (map (f \<circ> snd) (AList.update k v al)) \<subseteq> insert (f v) (set (map (f \<circ> snd) al))"
  by (induction al) auto

lemma refs_update_distinct:
  assumes "distinct (map (f \<circ> snd) al)" and "f v \<notin> set (map (f \<circ> snd) al)"
  shows "distinct (map (f \<circ> snd) (AList.update k v al))"
  using assms
proof (induction al)
  case Nil
  show ?case by simp
next
  case (Cons p al)
  show ?case
  proof (cases "fst p = k")
    case True
    with Cons.prems show ?thesis
      by auto
  next
    case False
    have "f (snd p) \<notin> set (map (f \<circ> snd) (AList.update k v al))"
      using refs_update_subset [of f k v al] Cons.prems by auto
    with False Cons show ?thesis
      by auto
  qed
qed

lemma refs_update_same:
  assumes "map_of al k = Some v" and "f v' = f v"
  shows "map (f \<circ> snd) (AList.update k v' al) = map (f \<circ> snd) al"
  using assms by (induction al) (auto split: if_splits)

lemma refs_delete_subset:
  "set (map (f \<circ> snd) (AList.delete k al)) \<subseteq> set (map (f \<circ> snd) al)"
  by (auto simp: AList.delete_eq)

lemma refs_delete_distinct:
  "distinct (map (f \<circ> snd) al) \<Longrightarrow> distinct (map (f \<circ> snd) (AList.delete k al))"
  by (simp add: AList.delete_eq distinct_map_filter)

lemma refs_delete_gone:
  assumes "distinct (map (f \<circ> snd) al)" and "map_of al k = Some v"
  shows "f v \<notin> set (map (f \<circ> snd) (AList.delete k al))"
proof
  assume "f v \<in> set (map (f \<circ> snd) (AList.delete k al))"
  then obtain x where x: "x \<in> set al" "fst x \<noteq> k" "f (snd x) = f v"
    by (auto simp: AList.delete_eq)
  from assms(2) have "(k, v) \<in> set al"
    by (rule map_of_SomeD)
  moreover from assms(1) have "inj_on (f \<circ> snd) (set al)"
    by (simp add: distinct_map)
  moreover have "(f \<circ> snd) x = (f \<circ> snd) (k, v)"
    using x(3) by simp
  ultimately have "x = (k, v)"
    using x(1) by (blast dest: inj_onD)
  with x(2) show False
    by simp
qed

lemma refs_lookup:
  assumes "map_of al k = Some v"
  shows "f v \<in> set (map (f \<circ> snd) al)"
proof -
  from assms have "(k, v) \<in> set al"
    by (rule map_of_SomeD)
  then have "(f \<circ> snd) (k, v) \<in> (f \<circ> snd) ` set al"
    by (rule imageI)
  then show ?thesis
    by simp
qed

subsection \<open>Counting\<close>

lemma in_discreteRefs:
  "r \<in> set (discreteRefs evs) \<longleftrightarrow>
     (\<exists>e\<in>set evs. discrete (ge_type e) \<and> r \<in> set (eventRefs e))"
  by (auto simp: discreteRefs_def)

lemma counts_zero:
  assumes "r \<notin> set (discreteRefs evs)"
  shows "tapsOf r evs = 0 \<and> longPressesOf r evs = 0"
proof -
  from assms have "\<forall>e\<in>set evs. \<not> (discrete (ge_type e) \<and> r \<in> set (eventRefs e))"
    by (simp add: in_discreteRefs)
  then show ?thesis
    by (auto simp: tapsOf_def longPressesOf_def discrete_def filter_empty_conv)
qed

lemma counts_le_one:
  assumes "distinct (discreteRefs evs)"
  shows "tapsOf r evs + longPressesOf r evs \<le> 1"
  using assms
proof (induction evs)
  case Nil
  show ?case by (simp add: tapsOf_def longPressesOf_def)
next
  case (Cons e evs)
  have split: "discreteRefs (e # evs) = discreteRefs [e] @ discreteRefs evs"
    using discreteRefs_append [of "[e]" evs] by simp
  with Cons.prems have dist: "distinct (discreteRefs evs)"
    and disj: "set (discreteRefs [e]) \<inter> set (discreteRefs evs) = {}"
    by simp_all
  show ?case
  proof (cases "discrete (ge_type e) \<and> r \<in> set (eventRefs e)")
    case True
    then have "r \<in> set (discreteRefs [e])"
      by (simp add: discreteRefs_single)
    with disj have "r \<notin> set (discreteRefs evs)"
      by auto
    from counts_zero [OF this] show ?thesis
      by (auto simp: tapsOf_def longPressesOf_def)
  next
    case False
    then have "tapsOf r (e # evs) = tapsOf r evs"
      and "longPressesOf r (e # evs) = longPressesOf r evs"
      by (auto simp: tapsOf_def longPressesOf_def discrete_def)
    with Cons.IH [OF dist] show ?thesis
      by simp
  qed
qed

subsection \<open>The invariant, by components\<close>

lemma contactInvariant_iff:
  "contactInvariant s \<longleftrightarrow>
     distinct (discreteRefs (emitted s)) \<and> distinct (map (tp_ref \<circ> snd) (timers s))
     \<and> distinct (map (tp_ref \<circ> snd) (touchPoints s))
     \<and> set (discreteRefs (emitted s)) \<inter> set (map (tp_ref \<circ> snd) (timers s)) = {}
     \<and> set (discreteRefs (emitted s)) \<inter> set (map (tp_ref \<circ> snd) (touchPoints s)) = {}
     \<and> set (map (tp_ref \<circ> snd) (timers s)) \<inter> set (map (tp_ref \<circ> snd) (touchPoints s)) = {}
     \<and> (\<forall>r\<in>set (discreteRefs (emitted s)). r < nextRef s)
     \<and> (\<forall>r\<in>set (map (tp_ref \<circ> snd) (timers s)). r < nextRef s)
     \<and> (\<forall>r\<in>set (map (tp_ref \<circ> snd) (touchPoints s)). r < nextRef s)
     \<and> list_all durationsRespected (emitted s)
     \<and> list_all (\<lambda>(due, touchPoint). tp_duration touchPoint < TAP_DURATION) (timers s)"
  unfolding contactInvariant_def contactRefs_def list_all_iff
  by (simp only: distinct_append set_append ball_Un) blast

lemma contactInvariantD:
  assumes "contactInvariant s"
  shows "distinct (discreteRefs (emitted s))"
    "distinct (map (tp_ref \<circ> snd) (timers s))"
    "distinct (map (tp_ref \<circ> snd) (touchPoints s))"
    "set (discreteRefs (emitted s)) \<inter> set (map (tp_ref \<circ> snd) (timers s)) = {}"
    "set (discreteRefs (emitted s)) \<inter> set (map (tp_ref \<circ> snd) (touchPoints s)) = {}"
    "set (map (tp_ref \<circ> snd) (timers s)) \<inter> set (map (tp_ref \<circ> snd) (touchPoints s)) = {}"
    "\<forall>r\<in>set (discreteRefs (emitted s)). r < nextRef s"
    "\<forall>r\<in>set (map (tp_ref \<circ> snd) (timers s)). r < nextRef s"
    "\<forall>r\<in>set (map (tp_ref \<circ> snd) (touchPoints s)). r < nextRef s"
    "list_all durationsRespected (emitted s)"
    "list_all (\<lambda>(due, touchPoint). tp_duration touchPoint < TAP_DURATION) (timers s)"
  using assms unfolding contactInvariant_iff by simp_all

lemma contactInvariant_cong:
  assumes "contactInvariant s"
    and "emitted s' = emitted s" and "timers s' = timers s"
    and "map (tp_ref \<circ> snd) (touchPoints s') = map (tp_ref \<circ> snd) (touchPoints s)"
    and "nextRef s' = nextRef s"
  shows "contactInvariant s'"
  using assms by (simp add: contactInvariant_def contactRefs_def)

lemma contactInvariant_shrink:
  assumes "contactInvariant s"
    and "emitted s' = emitted s" and "timers s' = timers s"
    and "distinct (map (tp_ref \<circ> snd) (touchPoints s'))"
    and "set (map (tp_ref \<circ> snd) (touchPoints s')) \<subseteq> set (map (tp_ref \<circ> snd) (touchPoints s))"
    and "nextRef s' = nextRef s"
  shows "contactInvariant s'"
proof -
  note inv = contactInvariantD [OF assms(1)]
  show ?thesis
    unfolding contactInvariant_iff assms(2,3,6)
    using inv assms(4,5) by blast
qed

subsection \<open>Touch start, move and cancel\<close>

lemma startTouch_effect:
  "emitted (startTouch now touch s) = emitted s"
  "timers (startTouch now touch s) = timers s"
  "nextRef (startTouch now touch s) = Suc (nextRef s)"
  by (simp_all add: startTouch_def Let_def)

lemma startTouch_touchPoints:
  "\<exists>touchPoint. tp_ref touchPoint = nextRef s
     \<and> touchPoints (startTouch now touch s) =
         AList.update (touch_identifier touch) touchPoint (touchPoints s)"
  apply (simp add: startTouch_def Let_def)
  apply (rule exI)
  apply (rule conjI)
   prefer 2
   apply (rule refl)
  apply simp
  done

lemma contactInvariant_startTouch:
  assumes "contactInvariant s"
  shows "contactInvariant (startTouch now touch s)"
proof -
  note inv = contactInvariantD [OF assms]
  obtain touchPoint where new: "tp_ref touchPoint = nextRef s"
    and tps: "touchPoints (startTouch now touch s) =
      AList.update (touch_identifier touch) touchPoint (touchPoints s)"
    using startTouch_touchPoints [of s now touch] by blast
  let ?A' = "map (tp_ref \<circ> snd) (touchPoints (startTouch now touch s))"
  from inv(9) new have fresh: "tp_ref touchPoint \<notin> set (map (tp_ref \<circ> snd) (touchPoints s))"
    by auto
  have sub: "set ?A' \<subseteq> insert (nextRef s) (set (map (tp_ref \<circ> snd) (touchPoints s)))"
    unfolding tps using refs_update_subset [of tp_ref _ touchPoint "touchPoints s"] new by simp
  have dist: "distinct ?A'"
    unfolding tps using inv(3) fresh by (rule refs_update_distinct)
  have lt: "\<forall>r\<in>set ?A'. r < Suc (nextRef s)"
  proof
    fix r
    assume "r \<in> set ?A'"
    with sub have "r = nextRef s \<or> r \<in> set (map (tp_ref \<circ> snd) (touchPoints s))"
      by blast
    with inv(9) have "r = nextRef s \<or> r < nextRef s"
      by blast
    then show "r < Suc (nextRef s)"
      by arith
  qed
  have nD: "nextRef s \<notin> set (discreteRefs (emitted s))"
    using inv(7) less_irrefl by blast
  have nT: "nextRef s \<notin> set (map (tp_ref \<circ> snd) (timers s))"
    using inv(8) less_irrefl by blast
  have d1: "set (discreteRefs (emitted s)) \<inter> set ?A' = {}"
    using sub inv(5) nD by blast
  have d2: "set (map (tp_ref \<circ> snd) (timers s)) \<inter> set ?A' = {}"
    using sub inv(6) nT by blast
  show ?thesis
    unfolding contactInvariant_iff startTouch_effect
    using inv(1,2,4,7,8,10,11) dist lt d1 d2 by (auto simp: less_Suc_eq)
qed

lemma moveTouch_effect:
  "emitted (moveTouch now touch s) = emitted s"
  "timers (moveTouch now touch s) = timers s"
  "nextRef (moveTouch now touch s) = nextRef s"
  "map (tp_ref \<circ> snd) (touchPoints (moveTouch now touch s)) =
     map (tp_ref \<circ> snd) (touchPoints s)"
  by (simp_all add: moveTouch_def Let_def refs_update_same split: option.splits)

lemma contactInvariant_moveTouch:
  "contactInvariant s \<Longrightarrow> contactInvariant (moveTouch now touch s)"
  by (rule contactInvariant_cong) (simp_all add: moveTouch_effect)

lemma contactInvariant_cancelTouch:
  assumes "contactInvariant s"
  shows "contactInvariant
           (s\<lparr>touchPoints := AList.delete (touch_identifier touch) (touchPoints s)\<rparr>)"
    (is "contactInvariant ?s'")
proof -
  have same: "emitted ?s' = emitted s" "timers ?s' = timers s" "nextRef ?s' = nextRef s"
    and tps: "touchPoints ?s' = AList.delete (touch_identifier touch) (touchPoints s)"
    by simp_all
  have dist: "distinct (map (tp_ref \<circ> snd) (touchPoints ?s'))"
    unfolding tps using contactInvariantD(3) [OF assms] by (rule refs_delete_distinct)
  have sub: "set (map (tp_ref \<circ> snd) (touchPoints ?s'))
      \<subseteq> set (map (tp_ref \<circ> snd) (touchPoints s))"
    unfolding tps by (rule refs_delete_subset)
  show ?thesis
    by (rule contactInvariant_shrink [OF assms same(1,2) dist sub same(3)])
qed

lemma contactInvariant_fields:
  "contactInvariant s \<Longrightarrow>
   contactInvariant
     (s\<lparr>initialPinchDistance := d, currentPinchScale := c, initialRotationAngle := a,
        currentRotationAngle := b, swipePoints := ps\<rparr>)"
  by (rule contactInvariant_cong) simp_all

subsection \<open>Touch end\<close>

lemma recognizeTap_cases:
  obtains
    (counted) "recognizeTap now touchPoint s =
      s\<lparr>tapCount := Suc (tapCount s), lastTapTime := now,
        lastTapPosition := Some (tp_position touchPoint)\<rparr>"
  | (double) "recognizeTap now touchPoint s =
      s\<lparr>tapCount := 0, emitted := emitted s @ [discreteEvent DOUBLE_TAP touchPoint],
        lastTapTime := now, lastTapPosition := Some (tp_position touchPoint)\<rparr>"
  | (single) "recognizeTap now touchPoint s =
      s\<lparr>tapCount := 1,
        timers := timers s @ [(now + DOUBLE_TAP_INTERVAL, touchPoint)],
        lastTapTime := now, lastTapPosition := Some (tp_position touchPoint)\<rparr>"
proof -
  define follows where "follows \<longleftrightarrow>
    (case lastTapPosition s of
       None \<Rightarrow> False
     | Some lastPos \<Rightarrow>
         distance2 (tp_position touchPoint) lastPos < 30
         \<and> now - lastTapTime s < DOUBLE_TAP_INTERVAL)"
  show thesis
  proof (cases follows)
    case False
    then have "recognizeTap now touchPoint s =
      s\<lparr>tapCount := 1,
        timers := timers s @ [(now + DOUBLE_TAP_INTERVAL, touchPoint)],
        lastTapTime := now, lastTapPosition := Some (tp_position touchPoint)\<rparr>"
      unfolding recognizeTap_def follows_def Let_def by simp
    then show thesis
      by (rule single)
  next
    case True
    show thesis
    proof (cases "Suc (tapCount s) = 2")
      case two: True
      with \<open>follows\<close> have "recognizeTap now touchPoint s =
        s\<lparr>tapCount := 0, emitted := emitted s @ [discreteEvent DOUBLE_TAP touchPoint],
          lastTapTime := now, lastTapPosition := Some (tp_position touchPoint)\<rparr>"
        unfolding recognizeTap_def follows_def Let_def by (simp add: emitGesture_def)
      then show thesis
        by (rule double)
    next
      case other: False
      with \<open>follows\<close> have "recognizeTap now touchPoint s =
        s\<lparr>tapCount := Suc (tapCount s), lastTapTime := now,
          lastTapPosition := Some (tp_position touchPoint)\<rparr>"
        unfolding recognizeTap_def follows_def Let_def by simp
      then show thesis
        by (rule counted)
    qed
  qed
qed

lemma recognizeTap_effect:
  "touchPoints (recognizeTap now touchPoint s) = touchPoints s
   \<and> nextRef (recognizeTap now touchPoint s) = nextRef s
   \<and> (emitted (recognizeTap now touchPoint s) = emitted s
         \<and> timers (recognizeTap now touchPoint s) = timers s
       \<or> emitted (recognizeTap now touchPoint s) =
           emitted s @ [discreteEvent DOUBLE_TAP touchPoint]
         \<and> timers (recognizeTap now touchPoint s) = timers s
       \<or> emitted (recognizeTap now touchPoint s) = emitted s
         \<and> timers (recognizeTap now touchPoint s) =
             timers s @ [(now + DOUBLE_TAP_INTERVAL, touchPoint)])"
  by (cases rule: recognizeTap_cases [of now touchPoint s]) simp_all

lemma recognizeDiscreteGestures_effect:
  "touchPoints (recognizeDiscreteGestures now touchPoint s) = touchPoints s
   \<and> nextRef (recognizeDiscreteGestures now touchPoint s) = nextRef s
   \<and> (emitted (recognizeDiscreteGestures now touchPoint s) = emitted s
         \<and> timers (recognizeDiscreteGestures now touchPoint s) = timers s
       \<or> emitted (recognizeDiscreteGestures now touchPoint s) =
           emitted s @ [discreteEvent DOUBLE_TAP touchPoint]
         \<and> timers (recognizeDiscreteGestures now touchPoint s) = timers s
         \<and> tp_duration touchPoint < TAP_DURATION
       \<or> emitted (recognizeDiscreteGestures now touchPoint s) =
           emitted s @ [discreteEvent LONG_PRESS touchPoint]
         \<and> timers (recognizeDiscreteGestures now touchPoint s) = timers s
         \<and> LONG_PRESS_DURATION < tp_duration touchPoint
       \<or> emitted (recognizeDiscreteGestures now touchPoint s) = emitted s
         \<and> timers (recognizeDiscreteGestures now touchPoint s) =
             timers s @ [(now + DOUBLE_TAP_INTERVAL, touchPoint)]
         \<and> tp_duration touchPoint < TAP_DURATION)"
proof (cases "tp_duration touchPoint < TAP_DURATION
    \<and> distance2 (tp_position touchPoint) (tp_startPosition touchPoint) < 10")
  case True
  then have "\<not> LONG_PRESS_DURATION < tp_duration touchPoint"
    by (simp add: TAP_DURATION_def LONG_PRESS_DURATION_def)
  with True have "recognizeDiscreteGestures now touchPoint s = recognizeTap now touchPoint s"
    by (simp add: recognizeDiscreteGestures_def Let_def)
  with True recognizeTap_effect [of now touchPoint s] show ?thesis
    by auto
next
  case False
  then have "recognizeDiscreteGestures now touchPoint s =
      (if LONG_PRESS_DURATION < tp_duration touchPoint
       then emitGesture (discreteEvent LONG_PRESS touchPoint) s else s)"
    by (auto simp: recognizeDiscreteGestures_def Let_def)
  then show ?thesis
    by (simp add: emitGesture_def)
qed

lemma durationsRespected_discreteEvent:
  "durationsRespected (discreteEvent ty touchPoint) \<longleftrightarrow>
     (ty = TAP \<or> ty = DOUBLE_TAP \<longrightarrow> tp_duration touchPoint < TAP_DURATION)
     \<and> (ty = LONG_PRESS \<longrightarrow> LONG_PRESS_DURATION < tp_duration touchPoint)"
  by (simp add: durationsRespected_def discreteEvent_def)

lemma contactInvariant_endTouch:
  assumes "contactInvariant s"
  shows "contactInvariant (endTouch now touch s)"
proof (cases "map_of (touchPoints s) (touch_identifier touch)")
  case None
  with assms show ?thesis
    by (simp add: endTouch_def)
next
  case (Some touchPoint)
  note inv = contactInvariantD [OF assms]
  define ended where "ended = touchPoint\<lparr>tp_duration := now - tp_startTime touchPoint\<rparr>"
  define s1 where "s1 = recognizeDiscreteGestures now ended s"
  define s2 where "s2 = s1\<lparr>touchPoints := AList.delete (touch_identifier touch) (touchPoints s1)\<rparr>"
  define r where "r = tp_ref touchPoint"
  let ?D = "discreteRefs (emitted s)"
  let ?T = "map (tp_ref \<circ> snd) (timers s)"
  let ?A = "map (tp_ref \<circ> snd) (touchPoints s)"
  let ?A' = "map (tp_ref \<circ> snd) (AList.delete (touch_identifier touch) (touchPoints s))"
  have s2: "endTouch now touch s = s2"
    by (simp only: endTouch_def Some option.case Let_def s2_def s1_def ended_def)
  have ref: "tp_ref ended = r"
    by (simp add: ended_def r_def)
  have "r \<in> set ?A"
    unfolding r_def using Some by (rule refs_lookup)
  with inv(5,6,9) have rD: "r \<notin> set ?D" and rT: "r \<notin> set ?T" and rlt: "r < nextRef s"
    by blast+
  have rA': "r \<notin> set ?A'"
    unfolding r_def using inv(3) Some by (rule refs_delete_gone)
  have dA': "distinct ?A'"
    using inv(3) by (rule refs_delete_distinct)
  have subA': "set ?A' \<subseteq> set ?A"
    by (rule refs_delete_subset)
  have tps: "touchPoints s2 = AList.delete (touch_identifier touch) (touchPoints s)"
    and nxt: "nextRef s2 = nextRef s"
    and em: "emitted s2 = emitted s1" and tm: "timers s2 = timers s1"
    using recognizeDiscreteGestures_effect [of now ended s]
    by (simp_all add: s2_def s1_def)
  have ltA': "\<forall>x\<in>set ?A'. x < nextRef s"
    using subA' inv(9) by blast
  have dDA': "set ?D \<inter> set ?A' = {}" and dTA': "set ?T \<inter> set ?A' = {}"
    using subA' inv(5,6) by blast+
  consider
    (none) "emitted s1 = emitted s" "timers s1 = timers s"
    | (dtap) "emitted s1 = emitted s @ [discreteEvent DOUBLE_TAP ended]" "timers s1 = timers s"
        "tp_duration ended < TAP_DURATION"
    | (lpress) "emitted s1 = emitted s @ [discreteEvent LONG_PRESS ended]" "timers s1 = timers s"
        "LONG_PRESS_DURATION < tp_duration ended"
    | (timer) "emitted s1 = emitted s"
        "timers s1 = timers s @ [(now + DOUBLE_TAP_INTERVAL, ended)]"
        "tp_duration ended < TAP_DURATION"
    using recognizeDiscreteGestures_effect [of now ended s] unfolding s1_def by blast
  then have "contactInvariant s2"
  proof cases
    case none
    show ?thesis
      unfolding contactInvariant_iff tps nxt em tm none
      using inv dA' ltA' dDA' dTA' by blast
  next
    case dtap
    have D': "discreteRefs (emitted s @ [discreteEvent DOUBLE_TAP ended]) = ?D @ [r]"
      by (simp add: ref)
    have dur: "list_all durationsRespected (emitted s @ [discreteEvent DOUBLE_TAP ended])"
      using inv(10) dtap(3) by (simp add: durationsRespected_discreteEvent)
    show ?thesis
      unfolding contactInvariant_iff tps nxt em tm dtap(1,2) D'
      using inv dA' ltA' dDA' dTA' rD rT rA' rlt dur by auto
  next
    case lpress
    have D': "discreteRefs (emitted s @ [discreteEvent LONG_PRESS ended]) = ?D @ [r]"
      by (simp add: ref)
    have dur: "list_all durationsRespected (emitted s @ [discreteEvent LONG_PRESS ended])"
      using inv(10) lpress(3) by (simp add: durationsRespected_discreteEvent)
    show ?thesis
      unfolding contactInvariant_iff tps nxt em tm lpress(1,2) D'
      using inv dA' ltA' dDA' dTA' rD rT rA' rlt dur by auto
  next
    case timer
    have T': "map (tp_ref \<circ> snd) (timers s @ [(now + DOUBLE_TAP_INTERVAL, ended)]) = ?T @ [r]"
      by (simp add: ref)
    have dur: "list_all (\<lambda>(due, touchPoint). tp_duration touchPoint < TAP_DURATION)
        (timers s @ [(now + DOUBLE_TAP_INTERVAL, ended)])"
      using inv(11) timer(3) by simp
    show ?thesis
      unfolding contactInvariant_iff tps nxt em tm timer(1,2) T'
      using inv dA' ltA' dDA' dTA' rD rT rA' rlt dur by auto
  qed
  with s2 show ?thesis
    by simp
qed

subsection \<open>Fields that do not matter, and continuous gestures\<close>

lemma contactInvariant_other_fields [simp]:
  "contactInvariant (s\<lparr>initialPinchDistance := d\<rparr>) = contactInvariant s"
  "contactInvariant (s\<lparr>currentPinchScale := c\<rparr>) = contactInvariant s"
  "contactInvariant (s\<lparr>initialRotationAngle := a\<rparr>) = contactInvariant s"
  "contactInvariant (s\<lparr>currentRotationAngle := b\<rparr>) = contactInvariant s"
  "contactInvariant (s\<lparr>swipePoints := ps\<rparr>) = contactInvariant s"
  by (simp_all add: contactInvariant_def contactRefs_def)

lemma contactInvariant_emit_continuous:
  assumes "\<not> discrete (ge_type e)"
  shows "contactInvariant (emitGesture e s) = contactInvariant s"
proof -
  from assms have "durationsRespected e"
    by (simp add: durationsRespected_def discrete_def list_all_iff)
  with assms show ?thesis
    by (simp add: contactInvariant_def contactRefs_def emitGesture_def discreteRefs_single)
qed

lemma contactInvariant_initializePinchGesture [simp]:
  "contactInvariant (initializePinchGesture s) = contactInvariant s"
  by (simp add: initializePinchGesture_def split: list.splits)

lemma contactInvariant_initializeRotationGesture [simp]:
  "contactInvariant (initializeRotationGesture s) = contactInvariant s"
  by (simp add: initializeRotationGesture_def split: list.splits)

lemma contactInvariant_recognizePinchGesture [simp]:
  "contactInvariant (recognizePinchGesture touchArray s) = contactInvariant s"
  by (simp add: recognizePinchGesture_def Let_def contactInvariant_emit_continuous
      discrete_def split: list.splits)

lemma contactInvariant_recognizeRotationGesture [simp]:
  "contactInvariant (recognizeRotationGesture touchArray s) = contactInvariant s"
  by (simp add: recognizeRotationGesture_def Let_def contactInvariant_emit_continuous
      discrete_def split: list.splits)

lemma contactInvariant_recognizeContinuousGestures [simp]:
  "contactInvariant (recognizeContinuousGestures s) = contactInvariant s"
  by (simp add: recognizeContinuousGestures_def contactInvariant_emit_continuous
      discrete_def split: list.splits)

subsection \<open>Timers\<close>

lemma fold_tapTimeout:
  "fold (\<lambda>(due, touchPoint). tapTimeout touchPoint) ts s =
     (if tapCount s = 1
      then s\<lparr>emitted :=
               emitted s @ map (\<lambda>(due, touchPoint). discreteEvent TAP touchPoint) ts\<rparr>
      else s)"
  by (induction ts arbitrary: s)
     (simp_all add: tapTimeout_def emitGesture_def case_prod_unfold)

lemma filter_refs_disjoint:
  assumes "distinct (map f xs)"
  shows "set (map f (filter P xs)) \<inter> set (map f (filter (\<lambda>x. \<not> P x) xs)) = {}"
  using assms by (induction xs) auto

lemma durationsRespected_taps:
  assumes "list_all (\<lambda>(due, touchPoint). tp_duration touchPoint < TAP_DURATION) ts"
  shows "list_all durationsRespected
           (map (\<lambda>(due, touchPoint). discreteEvent TAP touchPoint) ts)"
  using assms
  by (induction ts) (auto simp: durationsRespected_discreteEvent)

lemma contactInvariant_runTimers:
  assumes "contactInvariant s"
  shows "contactInvariant (runTimers now s)"
proof -
  note inv = contactInvariantD [OF assms]
  define due where "due = filter (\<lambda>(d, touchPoint). d \<le> now) (timers s)"
  define rest where "rest = filter (\<lambda>(d, touchPoint). \<not> d \<le> now) (timers s)"
  let ?D = "discreteRefs (emitted s)"
  let ?T = "map (tp_ref \<circ> snd) (timers s)"
  let ?A = "map (tp_ref \<circ> snd) (touchPoints s)"
  let ?due = "map (tp_ref \<circ> snd) due"
  let ?rest = "map (tp_ref \<circ> snd) rest"
  have rest': "rest = filter (\<lambda>x. \<not> (case x of (d, touchPoint) \<Rightarrow> d \<le> now)) (timers s)"
    unfolding rest_def by (rule filter_cong) auto
  have sub: "set ?due \<subseteq> set ?T" "set ?rest \<subseteq> set ?T"
    unfolding due_def rest_def by auto
  have dist: "distinct ?due" "distinct ?rest"
    unfolding due_def rest_def using inv(2) by (simp_all only: distinct_map_filter)
  have disj: "set ?due \<inter> set ?rest = {}"
    unfolding due_def rest' using inv(2) by (rule filter_refs_disjoint)
  have dur_rest: "list_all (\<lambda>(d, touchPoint). tp_duration touchPoint < TAP_DURATION) rest"
    and dur_due: "list_all (\<lambda>(d, touchPoint). tp_duration touchPoint < TAP_DURATION) due"
    using inv(11) unfolding due_def rest_def list_all_iff by auto
  have run: "runTimers now s =
      (if tapCount s = 1
       then s\<lparr>timers := rest,
              emitted :=
                emitted s @ map (\<lambda>(d, touchPoint). discreteEvent TAP touchPoint) due\<rparr>
       else s\<lparr>timers := rest\<rparr>)"
    unfolding runTimers_def due_def [symmetric] rest_def [symmetric]
    by (simp add: fold_tapTimeout)
  show ?thesis
  proof (cases "tapCount s = 1")
    case False
    have "contactInvariant (s\<lparr>timers := rest\<rparr>)"
      unfolding contactInvariant_iff
      using inv sub(2) dist(2) dur_rest by (simp del: set_map) blast
    with False run show ?thesis
      by simp
  next
    case True
    have D': "discreteRefs
        (emitted s @ map (\<lambda>(d, touchPoint). discreteEvent TAP touchPoint) due) = ?D @ ?due"
      by (simp add: discreteRefs_taps)
    have dur: "list_all durationsRespected
        (emitted s @ map (\<lambda>(d, touchPoint). discreteEvent TAP touchPoint) due)"
      using inv(10) durationsRespected_taps [OF dur_due] by simp
    have "contactInvariant
        (s\<lparr>timers := rest,
           emitted :=
             emitted s @ map (\<lambda>(d, touchPoint). discreteEvent TAP touchPoint) due\<rparr>)"
      unfolding contactInvariant_iff
      using inv sub dist disj dur dur_rest D' by (simp del: set_map) blast
    with True run show ?thesis
      by simp
  qed
qed

subsection \<open>Handlers\<close>

lemma contactInvariant_onTouchStart:
  assumes "contactInvariant s"
  shows "contactInvariant (onTouchStart now changed s)"
proof -
  have "contactInvariant (fold (startTouch now) changed s)"
    using assms
    by (rule fold_invariant [where P = contactInvariant, rotated])
       (rule contactInvariant_startTouch)
  then show ?thesis
    by (simp add: onTouchStart_def Let_def)
qed

lemma contactInvariant_onTouchMove:
  assumes "contactInvariant s"
  shows "contactInvariant (onTouchMove now changed s)"
proof -
  have "contactInvariant (fold (moveTouch now) changed s)"
    using assms
    by (rule fold_invariant [where P = contactInvariant, rotated])
       (rule contactInvariant_moveTouch)
  then show ?thesis
    by (simp add: onTouchMove_def)
qed

lemma contactInvariant_onTouchEnd:
  assumes "contactInvariant s"
  shows "contactInvariant (onTouchEnd now changed s)"
proof -
  have "contactInvariant (fold (endTouch now) changed s)"
    using assms
    by (rule fold_invariant [where P = contactInvariant, rotated])
       (rule contactInvariant_endTouch)
  then show ?thesis
    by (simp add: onTouchEnd_def Let_def)
qed

lemma contactInvariant_onTouchCancel:
  assumes "contactInvariant s"
  shows "contactInvariant (onTouchCancel changed s)"
  unfolding onTouchCancel_def
  using assms
  by (rule fold_invariant [where P = contactInvariant, rotated])
     (rule contactInvariant_cancelTouch)

lemma contactInvariant_handle: "contactInvariant s \<Longrightarrow> contactInvariant (handle i s)"
  by (cases i)
     (simp_all add: contactInvariant_onTouchStart contactInvariant_onTouchMove
        contactInvariant_onTouchEnd contactInvariant_onTouchCancel contactInvariant_runTimers)

lemma contactInvariant_handleAll:
  assumes "contactInvariant s"
  shows "contactInvariant (handleAll ins s)"
  unfolding handleAll_def
  using assms
  by (rule fold_invariant [where P = contactInvariant, rotated]) (rule contactInvariant_handle)

lemma contactInvariant_initial: "contactInvariant initial_controller"
  by (simp add: contactInvariant_def contactRefs_def initial_controller_def)

lemma tap_then_press_emitted:
  "map (\<lambda>e. (ge_type e, eventRefs e, map tp_duration (ge_touchPoints e)))
     (emitted (handleAll tap_then_press initial_controller)) =
   [(TAP, [0], [50]), (LONG_PRESS, [1], [600])]"
  by (simp add: tap_then_press_def gesture_defs eventRefs_def)


text \<open>\<^bold>\<open>C5\<close>. In any run of the controller from its initial state, and for every contact, the
  events emitted hold at most one Tap or DoubleTap and at most one LongPress for that contact,
  and never both. Every Tap or DoubleTap is for a touch that lasted less than \<open>TAP_DURATION\<close>
  (200 ms) and every LongPress for one that lasted more than \<open>LONG_PRESS_DURATION\<close> (500 ms),
  which is what keeps the two apart.\<close>

theorem one_discrete_gesture_per_contact:
  "tapsOf r (emitted (handleAll ins initial_controller)) \<le> 1
   \<and> longPressesOf r (emitted (handleAll ins initial_controller)) \<le> 1
   \<and> \<not> (0 < tapsOf r (emitted (handleAll ins initial_controller))
         \<and> 0 < longPressesOf r (emitted (handleAll ins initial_controller)))
   \<and> list_all durationsRespected (emitted (handleAll ins initial_controller))"
proof -
  have inv: "contactInvariant (handleAll ins initial_controller)"
    using contactInvariant_initial by (rule contactInvariant_handleAll)
  then have "distinct (discreteRefs (emitted (handleAll ins initial_controller)))"
    by (rule contactInvariantD)
  then have "tapsOf r (emitted (handleAll ins initial_controller))
      + longPressesOf r (emitted (handleAll ins initial_controller)) \<le> 1"
    by (rule counts_le_one)
  moreover have "list_all durationsRespected (emitted (handleAll ins initial_controller))"
    using inv by (rule contactInvariantD)
  ultimately show ?thesis
    by auto
qed

text \<open>A tap of 50 ms and a press of 600 ms: one Tap for the first contact, one LongPress for
  the second, and nothing else for either.\<close>

theorem one_discrete_gesture_per_contact_witness:
  "tapsOf 0 (emitted (handleAll tap_then_press initial_controller)) = 1
   \<and> longPressesOf 0 (emitted (handleAll tap_then_press initial_controller)) = 0
   \<and> tapsOf 1 (emitted (handleAll tap_then_press initial_controller)) = 0
   \<and> longPressesOf 1 (emitted (handleAll tap_then_press initial_controller)) = 1
   \<and> list_all durationsRespected (emitted (handleAll tap_then_press initial_controller))"
proof -
  have "tapsOf 0 (emitted (handleAll tap_then_press initial_controller)) = 1"
    and "longPressesOf 1 (emitted (handleAll tap_then_press initial_controller)) = 1"
    by (simp_all add: tap_then_press_def gesture_defs tapsOf_def longPressesOf_def
        eventRefs_def)
  then show ?thesis
    using one_discrete_gesture_per_contact [of 0 tap_then_press]
      one_discrete_gesture_per_contact [of 1 tap_then_press]
    by simp
qed

section \<open>Tap and double-tap\<close>

lemma distance2_same [simp]: "distance2 p p = 0"
  by (simp add: distance2_def)

lemma runTimers_unfold:
  "runTimers now s =
     (if tapCount s = 1
      then s\<lparr>timers := filter (\<lambda>(due, touchPoint). \<not> due \<le> now) (timers s),
             emitted :=
               emitted s
               @ map (\<lambda>(due, touchPoint). discreteEvent TAP touchPoint)
                   (filter (\<lambda>(due, touchPoint). due \<le> now) (timers s))\<rparr>
      else s\<lparr>timers := filter (\<lambda>(due, touchPoint). \<not> due \<le> now) (timers s)\<rparr>)"
  by (simp add: runTimers_def fold_tapTimeout)

text \<open>The fields that tap recognition reads and writes.\<close>

lemma recognizeTap_fields:
  "tapCount (recognizeTap now touchPoint s) =
     (if followsLastTap now (tp_position touchPoint) s
      then (if tapCount s = 1 then 0 else Suc (tapCount s)) else 1)"
  "emitted (recognizeTap now touchPoint s) =
     (if followsLastTap now (tp_position touchPoint) s \<and> tapCount s = 1
      then emitted s @ [discreteEvent DOUBLE_TAP touchPoint] else emitted s)"
  "timers (recognizeTap now touchPoint s) =
     (if followsLastTap now (tp_position touchPoint) s then timers s
      else timers s @ [(now + DOUBLE_TAP_INTERVAL, touchPoint)])"
  "lastTapTime (recognizeTap now touchPoint s) = now"
  "lastTapPosition (recognizeTap now touchPoint s) = Some (tp_position touchPoint)"
  unfolding recognizeTap_def followsLastTap_def Let_def
  by (simp_all add: emitGesture_def)

lemma followsLastTap_cong:
  "lastTapPosition s' = lastTapPosition s \<Longrightarrow> lastTapTime s' = lastTapTime s \<Longrightarrow>
   followsLastTap now pos s' = followsLastTap now pos s"
  by (simp add: followsLastTap_def split: option.splits)

lemma onTouchStart_single:
  "map_of (touchPoints (onTouchStart began [touch] s)) (touch_identifier touch) =
     Some ((tappedPoint began began touch (nextRef s))\<lparr>tp_duration := 0\<rparr>)"
  "tapCount (onTouchStart began [touch] s) = tapCount s"
  "emitted (onTouchStart began [touch] s) = emitted s"
  "timers (onTouchStart began [touch] s) = timers s"
  "lastTapTime (onTouchStart began [touch] s) = lastTapTime s"
  "lastTapPosition (onTouchStart began [touch] s) = lastTapPosition s"
  by (simp_all add: onTouchStart_def startTouch_def initializePinchGesture_def
      initializeRotationGesture_def tappedPoint_def AList.update_conv' Let_def
      split: list.splits)

lemma tapped_discrete:
  assumes "ended - began < TAP_DURATION"
  shows "recognizeDiscreteGestures ended (tappedPoint began ended touch r) s =
           recognizeTap ended (tappedPoint began ended touch r) s"
proof -
  from assms have "\<not> LONG_PRESS_DURATION < ended - began"
    by (simp add: TAP_DURATION_def LONG_PRESS_DURATION_def)
  with assms show ?thesis
    by (simp add: recognizeDiscreteGestures_def tappedPoint_def)
qed

lemma onTouchEnd_single:
  assumes "map_of (touchPoints s) (touch_identifier touch) =
      Some ((tappedPoint began began touch r)\<lparr>tp_duration := 0\<rparr>)"
    and "ended - began < TAP_DURATION"
  shows "tapCount (onTouchEnd ended [touch] s) =
           tapCount (recognizeTap ended (tappedPoint began ended touch r) s)"
    and "emitted (onTouchEnd ended [touch] s) =
           emitted (recognizeTap ended (tappedPoint began ended touch r) s)"
    and "timers (onTouchEnd ended [touch] s) =
           timers (recognizeTap ended (tappedPoint began ended touch r) s)"
    and "lastTapTime (onTouchEnd ended [touch] s) = ended"
    and "lastTapPosition (onTouchEnd ended [touch] s) =
           Some (Vector2 (clientX touch) (clientY touch))"
proof -
  have ended: "(tappedPoint began began touch r)
      \<lparr>tp_duration := 0,
        tp_duration := ended - tp_startTime ((tappedPoint began began touch r)\<lparr>tp_duration := 0\<rparr>)\<rparr>
      = tappedPoint began ended touch r"
    by (simp add: tappedPoint_def)
  define s1 where "s1 = recognizeTap ended (tappedPoint began ended touch r) s"
  have "endTouch ended touch s =
      s1\<lparr>touchPoints := AList.delete (touch_identifier touch) (touchPoints s1)\<rparr>"
    unfolding endTouch_def assms(1) option.case Let_def ended
    by (simp only: tapped_discrete [OF assms(2)] s1_def)
  then have eq: "onTouchEnd ended [touch] s =
      (let s2 = s1\<lparr>touchPoints := AList.delete (touch_identifier touch) (touchPoints s1)\<rparr>
       in if length (touchPoints s2) < 2
          then s2\<lparr>initialPinchDistance := 0, initialRotationAngle := 0\<rparr> else s2)"
    by (simp add: onTouchEnd_def)
  have pos: "tp_position (tappedPoint began ended touch r) =
      Vector2 (clientX touch) (clientY touch)"
    by (simp add: tappedPoint_def)
  show "tapCount (onTouchEnd ended [touch] s) =
           tapCount (recognizeTap ended (tappedPoint began ended touch r) s)"
    and "emitted (onTouchEnd ended [touch] s) =
           emitted (recognizeTap ended (tappedPoint began ended touch r) s)"
    and "timers (onTouchEnd ended [touch] s) =
           timers (recognizeTap ended (tappedPoint began ended touch r) s)"
    and "lastTapTime (onTouchEnd ended [touch] s) = ended"
    and "lastTapPosition (onTouchEnd ended [touch] s) =
           Some (Vector2 (clientX touch) (clientY touch))"
    unfolding eq Let_def
    by (simp_all add: s1_def [symmetric])
       (simp_all add: s1_def recognizeTap_fields pos)
qed


text \<open>A whole tap: the contact begins and ends without moving, within the tap duration.\<close>

lemma tap_fields:
  fixes began ended :: int and touch :: RawTouch and s :: InputController
  assumes "ended - began < TAP_DURATION"
  defines "s' \<equiv> handleAll [TouchStart began [touch], TouchEnd ended [touch]] s"
    and "pos \<equiv> Vector2 (clientX touch) (clientY touch)"
    and "tp \<equiv> tappedPoint began ended touch (nextRef s)"
  shows "tapCount s' =
           (if followsLastTap ended pos s
            then (if tapCount s = 1 then 0 else Suc (tapCount s)) else 1)"
    and "emitted s' =
           (if followsLastTap ended pos s \<and> tapCount s = 1
            then emitted s @ [discreteEvent DOUBLE_TAP tp] else emitted s)"
    and "timers s' =
           (if followsLastTap ended pos s then timers s
            else timers s @ [(ended + DOUBLE_TAP_INTERVAL, tp)])"
    and "lastTapTime s' = ended"
    and "lastTapPosition s' = Some pos"
proof -
  let ?s1 = "onTouchStart began [touch] s"
  have s': "s' = onTouchEnd ended [touch] ?s1"
    by (simp add: s'_def handleAll_def)
  have pos: "tp_position tp = pos"
    by (simp add: tp_def pos_def tappedPoint_def)
  have follows: "followsLastTap ended pos ?s1 = followsLastTap ended pos s"
    by (rule followsLastTap_cong) (simp_all add: onTouchStart_single)
  note fields = onTouchEnd_single [OF onTouchStart_single(1) assms(1), of touch s, folded tp_def]
  show "tapCount s' =
           (if followsLastTap ended pos s
            then (if tapCount s = 1 then 0 else Suc (tapCount s)) else 1)"
    unfolding s' fields by (simp add: recognizeTap_fields pos follows onTouchStart_single)
  show "emitted s' =
           (if followsLastTap ended pos s \<and> tapCount s = 1
            then emitted s @ [discreteEvent DOUBLE_TAP tp] else emitted s)"
    unfolding s' fields by (simp add: recognizeTap_fields pos follows onTouchStart_single)
  show "timers s' =
           (if followsLastTap ended pos s then timers s
            else timers s @ [(ended + DOUBLE_TAP_INTERVAL, tp)])"
    unfolding s' fields by (simp add: recognizeTap_fields pos follows onTouchStart_single)
  show "lastTapTime s' = ended"
    unfolding s' fields by (rule refl)
  show "lastTapPosition s' = Some pos"
    unfolding s' fields pos_def by (rule refl)
qed

lemma handleAll_append: "handleAll (xs @ ys) s = handleAll ys (handleAll xs s)"
  by (simp add: handleAll_def)

lemma handleAll_Timeout: "handleAll [Timeout now] s = runTimers now s"
  by (simp add: handleAll_def)

lemma single_tap:
  fixes began ended :: int and touch :: RawTouch and s :: InputController
  assumes dur: "ended - began < TAP_DURATION"
    and fresh: "\<not> followsLastTap ended (Vector2 (clientX touch) (clientY touch)) s"
    and idle: "timers s = []"
  defines "tap \<equiv> [TouchStart began [touch], TouchEnd ended [touch]]"
    and "tp \<equiv> tappedPoint began ended touch (nextRef s)"
  shows "emitted (handleAll tap s) = emitted s"
    and "now < ended + DOUBLE_TAP_INTERVAL \<Longrightarrow>
           emitted (handleAll (tap @ [Timeout now]) s) = emitted s"
    and "ended + DOUBLE_TAP_INTERVAL \<le> now \<Longrightarrow>
           emitted (handleAll (tap @ [Timeout now]) s) = emitted s @ [discreteEvent TAP tp]
           \<and> timers (handleAll (tap @ [Timeout now]) s) = []"
proof -
  note f = tap_fields [OF dur, of touch s, folded tap_def tp_def]
  from f(1-3) fresh idle have after: "tapCount (handleAll tap s) = 1"
    "emitted (handleAll tap s) = emitted s"
    "timers (handleAll tap s) = [(ended + DOUBLE_TAP_INTERVAL, tp)]"
    by simp_all
  show "emitted (handleAll tap s) = emitted s"
    by (rule after)
  show "emitted (handleAll (tap @ [Timeout now]) s) = emitted s"
    if "now < ended + DOUBLE_TAP_INTERVAL"
    using that by (simp add: handleAll_append handleAll_Timeout runTimers_unfold after)
  show "emitted (handleAll (tap @ [Timeout now]) s) = emitted s @ [discreteEvent TAP tp]
      \<and> timers (handleAll (tap @ [Timeout now]) s) = []"
    if "ended + DOUBLE_TAP_INTERVAL \<le> now"
    using that by (simp add: handleAll_append handleAll_Timeout runTimers_unfold after)
qed

lemma double_tap:
  fixes a1 e1 a2 e2 :: int and t1 t2 :: RawTouch and s :: InputController
  assumes dur1: "e1 - a1 < TAP_DURATION" and dur2: "e2 - a2 < TAP_DURATION"
    and same: "clientX t2 = clientX t1" "clientY t2 = clientY t1"
    and close: "e2 - e1 < DOUBLE_TAP_INTERVAL"
    and fresh: "\<not> followsLastTap e1 (Vector2 (clientX t1) (clientY t1)) s"
    and idle: "timers s = []"
    and late: "e1 + DOUBLE_TAP_INTERVAL \<le> now"
  defines "taps \<equiv> [TouchStart a1 [t1], TouchEnd e1 [t1], TouchStart a2 [t2], TouchEnd e2 [t2]]"
  shows "emitted (handleAll (taps @ [Timeout now]) s) =
           emitted s @ [discreteEvent DOUBLE_TAP (tappedPoint a2 e2 t2 (Suc (nextRef s)))]"
    and "timers (handleAll (taps @ [Timeout now]) s) = []"
proof -
  define u where "u = handleAll [TouchStart a1 [t1], TouchEnd e1 [t1]] s"
  define v where "v = handleAll [TouchStart a2 [t2], TouchEnd e2 [t2]] u"
  define tp1 where "tp1 = tappedPoint a1 e1 t1 (nextRef s)"
  define tp2 where "tp2 = tappedPoint a2 e2 t2 (Suc (nextRef s))"
  have nextRef_u: "nextRef u = Suc (nextRef s)"
    by (simp add: u_def handleAll_def onTouchStart_def onTouchEnd_def endTouch_def
        recognizeDiscreteGestures_def recognizeTap_def emitGesture_def startTouch_def
        initializePinchGesture_def initializeRotationGesture_def Let_def
        split: option.splits list.splits)
  note f1 = tap_fields [OF dur1, of t1 s, folded u_def tp1_def]
  from f1 fresh idle have u: "tapCount u = 1" "emitted u = emitted s"
    "timers u = [(e1 + DOUBLE_TAP_INTERVAL, tp1)]" "lastTapTime u = e1"
    "lastTapPosition u = Some (Vector2 (clientX t1) (clientY t1))"
    by simp_all
  have follows: "followsLastTap e2 (Vector2 (clientX t2) (clientY t2)) u"
    using close by (simp add: followsLastTap_def u same)
  note f2 = tap_fields [OF dur2, of t2 u, folded v_def, unfolded nextRef_u, folded tp2_def]
  from f2 follows u have v: "tapCount v = 0"
    "emitted v = emitted s @ [discreteEvent DOUBLE_TAP tp2]"
    "timers v = [(e1 + DOUBLE_TAP_INTERVAL, tp1)]"
    by simp_all
  have run: "handleAll (taps @ [Timeout now]) s = runTimers now v"
    by (simp add: taps_def v_def u_def handleAll_def)
  show "emitted (handleAll (taps @ [Timeout now]) s) =
      emitted s @ [discreteEvent DOUBLE_TAP (tappedPoint a2 e2 t2 (Suc (nextRef s)))]"
    unfolding run by (simp add: runTimers_unfold v tp2_def)
  show "timers (handleAll (taps @ [Timeout now]) s) = []"
    unfolding run using late by (simp add: runTimers_unfold v)
qed


text \<open>Taken by themselves the taps come out as specified. Take a controller with no tap timer
  pending, and a tap, that is a contact that ends without having moved less than
  \<open>TAP_DURATION\<close> after it began, which is not itself the follow-up of an earlier tap. When a
  second tap at the same position ends less than \<open>DOUBLE_TAP_INTERVAL\<close> (300 ms) after the
  first and nothing else happens until the timers run, the two taps emit one DoubleTap, at the
  end of the second tap, and no Tap. When nothing follows the tap, it emits nothing at its
  end, nothing as long as the interval has not elapsed, and one Tap when the timer runs after
  the interval; no timer is left.\<close>

lemma taps_in_isolation:
  fixes a1 e1 a2 e2 :: int and t1 t2 :: RawTouch and s :: InputController
  assumes "e1 - a1 < TAP_DURATION" and "e2 - a2 < TAP_DURATION"
    and "clientX t2 = clientX t1" and "clientY t2 = clientY t1"
    and "e2 - e1 < DOUBLE_TAP_INTERVAL"
    and "\<not> followsLastTap e1 (Vector2 (clientX t1) (clientY t1)) s"
    and "timers s = []"
  shows "(e1 + DOUBLE_TAP_INTERVAL \<le> now \<longrightarrow>
            emitted (handleAll [TouchStart a1 [t1], TouchEnd e1 [t1], TouchStart a2 [t2],
                                TouchEnd e2 [t2], Timeout now] s) =
              emitted s @ [discreteEvent DOUBLE_TAP (tappedPoint a2 e2 t2 (Suc (nextRef s)))]
            \<and> timers (handleAll [TouchStart a1 [t1], TouchEnd e1 [t1], TouchStart a2 [t2],
                                  TouchEnd e2 [t2], Timeout now] s) = [])
       \<and> emitted (handleAll [TouchStart a1 [t1], TouchEnd e1 [t1]] s) = emitted s
       \<and> (now < e1 + DOUBLE_TAP_INTERVAL \<longrightarrow>
            emitted (handleAll [TouchStart a1 [t1], TouchEnd e1 [t1], Timeout now] s) =
              emitted s)
       \<and> (e1 + DOUBLE_TAP_INTERVAL \<le> now \<longrightarrow>
            emitted (handleAll [TouchStart a1 [t1], TouchEnd e1 [t1], Timeout now] s) =
              emitted s @ [discreteEvent TAP (tappedPoint a1 e1 t1 (nextRef s))]
            \<and> timers (handleAll [TouchStart a1 [t1], TouchEnd e1 [t1], Timeout now] s) = [])"
  using double_tap [OF assms, where now = now] single_tap(1) [OF assms(1,6,7)]
    single_tap(2,3) [OF assms(1,6,7), where now = now]
  by simp

text \<open>From the initial state: two taps of 50 ms, 100 ms apart, give one DoubleTap; one tap
  gives nothing at 349 ms and a Tap at 350 ms, 300 ms after its end.\<close>

lemma taps_in_isolation_initial:
  "map ge_type (emitted (handleAll two_taps initial_controller)) = [DOUBLE_TAP]
   \<and> timers (handleAll two_taps initial_controller) = []
   \<and> emitted (handleAll one_tap initial_controller) = []
   \<and> emitted (handleAll (one_tap @ [Timeout 349]) initial_controller) = []
   \<and> map ge_type (emitted (handleAll (one_tap @ [Timeout 350]) initial_controller)) = [TAP]"
proof -
  have hyps: "50 - 0 < TAP_DURATION" "150 - 100 < TAP_DURATION"
    "clientX (finger 0 10 10) = clientX (finger 0 10 10)"
    "clientY (finger 0 10 10) = clientY (finger 0 10 10)"
    "150 - 50 < DOUBLE_TAP_INTERVAL"
    "\<not> followsLastTap 50
         (Vector2 (clientX (finger 0 10 10)) (clientY (finger 0 10 10))) initial_controller"
    "timers initial_controller = []"
    by (simp_all add: TAP_DURATION_def DOUBLE_TAP_INTERVAL_def followsLastTap_def
        initial_controller_def)
  have empty: "emitted initial_controller = []"
    by (simp add: initial_controller_def)
  from taps_in_isolation [OF hyps, of 500] taps_in_isolation [OF hyps, of 349]
    taps_in_isolation [OF hyps, of 350]
  show ?thesis
    by (simp add: two_taps_def one_tap_def empty DOUBLE_TAP_INTERVAL_def discreteEvent_def)
qed

lemma sqrt_20000_ge_30: "\<not> sqrt 20000 < 30"
proof -
  have "30 \<le> sqrt 20000"
    by (rule real_le_rsqrt) simp
  then show ?thesis
    by simp
qed

text \<open>\<^bold>\<open>C4\<close>. Two taps at one position, the second ending within \<open>DOUBLE_TAP_INTERVAL\<close> of the
  first, are to give one DoubleTap and no Tap, and a tap that nothing follows within the
  interval is to give one Tap. The controller does neither on every run: the timer of a tap is
  never cancelled, and when it runs it tests the one counter that all taps share. After three
  taps at one position, ending at 50, 150 and 250, the second tap has given the DoubleTap and
  the third has raised the counter to 1 again, so the timer of the first tap, run at 350,
  emits a Tap for the first contact: two taps have given a DoubleTap and a Tap. After a tap at
  the origin and a double-tap elsewhere the counter is 0, so the first tap, which nothing
  followed, never gets its Tap, however late the timers run.\<close>

theorem stale_tap_timer:
  "map (\<lambda>e. (ge_type e, eventRefs e)) (emitted (handleAll three_taps initial_controller)) =
     [(DOUBLE_TAP, [1]), (TAP, [0])]
   \<and> map (\<lambda>e. (ge_type e, eventRefs e))
       (emitted (handleAll tap_before_double_tap initial_controller)) = [(DOUBLE_TAP, [2])]
   \<and> timers (handleAll tap_before_double_tap initial_controller) = []"
  by (simp add: three_taps_def tap_before_double_tap_def gesture_defs eventRefs_def
      sqrt_20000_ge_30)

end
